theory Spec2Isabelle
  imports Main
begin

section \<open>Values\<close>

text \<open>
  Times are milliseconds since the epoch, as \<^verbatim>\<open>Date.now()\<close> returns them. A job
  identifier is the store's ObjectId, kept as its hexadecimal string form. A JavaScript
  error object is kept as its message.
\<close>

type_synonym time = int

datatype object_id = ObjectId string

fun toString :: "object_id \<Rightarrow> string" where
  "toString (ObjectId h) = h"

datatype err = Error string

text \<open>
  The JavaScript values a caller can hand to \<^verbatim>\<open>add\<close>. Numbers are integers here
  (no NaN); an object is its list of properties, keys distinct.
\<close>

datatype jsval =
    JUndefined
  | JNull
  | JBool bool
  | JNum int
  | JStr string
  | JObj "(string \<times> jsval) list"

text \<open>\<^verbatim>\<open>!v\<close> is \<open>\<not> truthy v\<close>.\<close>

fun truthy :: "jsval \<Rightarrow> bool" where
  "truthy JUndefined = False"
| "truthy JNull = False"
| "truthy (JBool b) = b"
| "truthy (JNum n) = (n \<noteq> 0)"
| "truthy (JStr s) = (s \<noteq> [])"
| "truthy (JObj kvs) = True"

text \<open>
  \<^verbatim>\<open>v.k\<close> for a value that is neither null nor undefined (\<^verbatim>\<open>add\<close> reads a
  property only after its truthiness check): a missing property, and any property of a
  primitive that its prototype does not define, is undefined.
\<close>

fun property :: "jsval \<Rightarrow> string \<Rightarrow> jsval" where
  "property (JObj kvs) k = (case map_of kvs k of Some v \<Rightarrow> v | None \<Rightarrow> JUndefined)"
| "property v k = JUndefined"

section \<open>The job schema (schemas/job-schema)\<close>

datatype schema_type = ObjectIdType | StringType | NumberType | MixedType

text \<open>
  The schema object built by \<^verbatim>\<open>new Schema({...}, {timestamps: true})\<close>. A default
  given as a value is stored in the schema as that value; \<^verbatim>\<open>Date.now()\<close> is a
  call, so \<open>blockedUntil_default\<close> is the clock reading taken while the schema is built.
\<close>

record schema =
  blockedUntil_default :: time
  retries_default :: int
  done_default :: bool
  payload_type :: schema_type

record model =
  modelName :: string
  modelSchema :: schema

text \<open>
  The module-level variable \<^verbatim>\<open>var Job = null\<close> is the state \<open>Job :: schema option\<close>,
  passed in and returned. \<open>now\<close> is what \<^verbatim>\<open>Date.now()\<close> returns during the call.
\<close>

definition JobSchema ::
  "time \<Rightarrow> string \<Rightarrow> schema_type \<Rightarrow> schema option \<Rightarrow> model \<times> schema option" where
  "JobSchema now collectionName payloadRefType Job =
     (let Job' = (case Job of
                    None \<Rightarrow> \<lparr>blockedUntil_default = now, retries_default = 0,
                             done_default = False, payload_type = payloadRefType\<rparr>
                  | Some sch \<Rightarrow> sch)
      in (\<lparr>modelName = collectionName, modelSchema = Job'\<rparr>, Some Job'))"

text \<open>
  The successive calls of the factory within one process, each with its clock reading,
  collection name and payload reference type; the module state is threaded through.
\<close>

fun JobSchema_calls ::
  "(time \<times> string \<times> schema_type) list \<Rightarrow> schema option \<Rightarrow> model list \<times> schema option" where
  "JobSchema_calls [] Job = ([], Job)"
| "JobSchema_calls ((now, collectionName, payloadRefType') # cs) Job =
     (let (m, Job') = JobSchema now collectionName payloadRefType' Job;
          (ms, Job'') = JobSchema_calls cs Job'
      in (m # ms, Job''))"

section \<open>Job documents and the store\<close>

record job =
  job_id :: object_id
  payload :: jsval
  createdAt :: time
  blockedUntil :: time
  workerHostname :: "string option"
  workerId :: "string option"
  retries :: int
  is_done :: bool
  error_msg :: "string option"

text \<open>
  The job collection is the list of its documents in insertion order. The store's
  operations are those the queue calls: insert (\<^verbatim>\<open>save\<close>), atomic find-and-update
  with a sort (\<^verbatim>\<open>findOneAndUpdate\<close>) and delete-by-filter (\<^verbatim>\<open>remove\<close>). Each
  call is one indivisible step on the collection. A call can fail in the store
  (connectivity, validation): \<open>fault\<close> is the error the store reports for this call, if
  any, and a failed call leaves the collection as it was.
\<close>

type_synonym collection = "job list"

definition ids :: "collection \<Rightarrow> object_id list" where
  "ids s = map job_id s"

text \<open>\<^verbatim>\<open>_id\<close> carries the store's unique index: a second document with the same id is refused.\<close>

definition save :: "err option \<Rightarrow> time \<Rightarrow> job \<Rightarrow> collection \<Rightarrow> (err + job) \<times> collection" where
  "save fault now doc s =
     (case fault of
        Some e \<Rightarrow> (Inl e, s)
      | None \<Rightarrow>
          if job_id doc \<in> set (ids s) then (Inl (Error ''E11000 duplicate key error''), s)
          else (let saved = doc\<lparr>createdAt := now\<rparr> in (Inr saved, s @ [saved])))"

fun update_first :: "('a \<Rightarrow> bool) \<Rightarrow> ('a \<Rightarrow> 'a) \<Rightarrow> 'a list \<Rightarrow> 'a list" where
  "update_first P f [] = []"
| "update_first P f (x # xs) = (if P x then f x # xs else x # update_first P f xs)"

text \<open>
  \<^verbatim>\<open>findOneAndUpdate(filter, update, {new: true, sort: ...})\<close>: the first document of
  the matching ones under the sort order is updated in place and returned as updated;
  nothing is changed and null is returned when none matches. The store addresses the
  document it updates by its \<^verbatim>\<open>_id\<close>. Documents with equal sort keys keep their
  insertion order.
\<close>

definition findOneAndUpdate ::
  "err option \<Rightarrow> (job \<Rightarrow> bool) \<Rightarrow> (job list \<Rightarrow> job list) \<Rightarrow> (job \<Rightarrow> job) \<Rightarrow> collection
     \<Rightarrow> (err + job option) \<times> collection" where
  "findOneAndUpdate fault flt srt upd s =
     (case fault of
        Some e \<Rightarrow> (Inl e, s)
      | None \<Rightarrow>
          (case srt (filter flt s) of
             [] \<Rightarrow> (Inr None, s)
           | j # _ \<Rightarrow> (Inr (Some (upd j)), update_first (\<lambda>d. job_id d = job_id j) upd s)))"

definition remove_docs :: "err option \<Rightarrow> (job \<Rightarrow> bool) \<Rightarrow> collection \<Rightarrow> err option \<times> collection" where
  "remove_docs fault flt s =
     (case fault of
        Some e \<Rightarrow> (Some e, s)
      | None \<Rightarrow> (None, filter (\<lambda>d. \<not> flt d) s))"

text \<open>
  \<^verbatim>\<open>populate({path: 'payload', model: ...})\<close> replaces the stored reference by the
  document of the payload collection with that \<^verbatim>\<open>_id\<close>, or by null when there is none.
\<close>

definition populate :: "jsval list \<Rightarrow> jsval \<Rightarrow> jsval" where
  "populate payloads ref =
     (case find (\<lambda>d. property d ''_id'' = ref) payloads of Some d \<Rightarrow> d | None \<Rightarrow> JNull)"

section \<open>The queue (lib/mongoose-queue)\<close>

record options =
  payloadRefType :: schema_type
  queueCollection :: string
  blockDuration :: int
  maxRetries :: int

text \<open>The options object a caller passes: any property may be left undefined.\<close>

record options_arg =
  arg_payloadRefType :: "schema_type option"
  arg_queueCollection :: "string option"
  arg_blockDuration :: "int option"
  arg_maxRetries :: "int option"

definition defaults :: "options_arg \<Rightarrow> options" where
  "defaults a =
     \<lparr>payloadRefType = (case arg_payloadRefType a of Some t \<Rightarrow> t | None \<Rightarrow> ObjectIdType),
      queueCollection = (case arg_queueCollection a of Some c \<Rightarrow> c | None \<Rightarrow> ''queue''),
      blockDuration = (case arg_blockDuration a of Some d \<Rightarrow> d | None \<Rightarrow> 30000),
      maxRetries = (case arg_maxRetries a of Some m \<Rightarrow> m | None \<Rightarrow> 5)\<rparr>"

record queue =
  payloadModel :: string
  this_workerHostname :: string
  this_workerId :: string
  this_options :: options
  JobModel :: model

text \<open>
  The constructor. \<open>hostname\<close> is \<^verbatim>\<open>os.hostname()\<close>; the module state of the schema
  factory is threaded through.
\<close>

definition MongooseQueue ::
  "string \<Rightarrow> string option \<Rightarrow> options_arg option \<Rightarrow> string \<Rightarrow> time \<Rightarrow> schema option
     \<Rightarrow> queue \<times> schema option" where
  "MongooseQueue payloadModel' workerId' options' hostname now Job =
     (let opts = defaults (case options' of Some a \<Rightarrow> a
                 | None \<Rightarrow> \<lparr>arg_payloadRefType = None, arg_queueCollection = None,
                            arg_blockDuration = None, arg_maxRetries = None\<rparr>);
          (m, Job') = JobSchema now (queueCollection opts) (payloadRefType opts) Job
      in (\<lparr>payloadModel = payloadModel',
           this_workerHostname = hostname,
           this_workerId = (case workerId' of Some w \<Rightarrow> w | None \<Rightarrow> []),
           this_options = opts,
           JobModel = m\<rparr>, Job'))"

text \<open>
  \<^verbatim>\<open>new this.JobModel({payload: ref})\<close>: the given field, every other field at the
  schema's default; \<open>new_id\<close> is the identifier the driver generates for the document.
  \<open>createdAt\<close> is set by \<open>save\<close>.
\<close>

definition new_job :: "model \<Rightarrow> object_id \<Rightarrow> jsval \<Rightarrow> job" where
  "new_job m new_id ref =
     \<lparr>job_id = new_id, payload = ref, createdAt = 0,
      blockedUntil = blockedUntil_default (modelSchema m),
      workerHostname = None, workerId = None,
      retries = retries_default (modelSchema m),
      is_done = done_default (modelSchema m),
      error_msg = None\<rparr>"

definition add ::
  "queue \<Rightarrow> err option \<Rightarrow> object_id \<Rightarrow> time \<Rightarrow> jsval \<Rightarrow> collection \<Rightarrow> (err + string) \<times> collection" where
  "add this fault new_id now payload' s =
     (if \<not> truthy payload' then (Inl (Error ''Payload missing.''), s)
      else if \<not> truthy (property payload' ''_id'')
        then (Inl (Error ''Payload is no valid Mongoose document.''), s)
      else (case save fault now (new_job (JobModel this) new_id (property payload' ''_id'')) s of
              (Inl e, s') \<Rightarrow> (Inl e, s')
            | (Inr j, s') \<Rightarrow> (Inr (toString (job_id j)), s')))"

record job_view =
  v_id :: object_id
  v_payload :: jsval
  v_blockedUntil :: time
  v_done :: bool

record error_view = job_view +
  v_error :: "string option"

text \<open>The filter and the update that \<^verbatim>\<open>get\<close> hands to the store.\<close>

definition claimable :: "int \<Rightarrow> time \<Rightarrow> job \<Rightarrow> bool" where
  "claimable mr now j \<longleftrightarrow> blockedUntil j < now \<and> retries j \<le> mr \<and> is_done j = False"

definition claim :: "queue \<Rightarrow> time \<Rightarrow> job \<Rightarrow> job" where
  "claim this now j =
     j\<lparr>blockedUntil := now + blockDuration (this_options this),
       workerId := Some (this_workerId this),
       workerHostname := Some (this_workerHostname this),
       retries := retries j + 1\<rparr>"

text \<open>
  \<^verbatim>\<open>get\<close> reads the clock twice: \<open>now1\<close> while the filter is built, \<open>now2\<close> while
  the update is built. \<open>pfault\<close> is the failure, if any, of the query that \<^verbatim>\<open>populate\<close>
  sends after the update has been applied.
\<close>

definition get ::
  "queue \<Rightarrow> jsval list \<Rightarrow> err option \<Rightarrow> err option \<Rightarrow> time \<Rightarrow> time \<Rightarrow> collection
     \<Rightarrow> (err + job_view option) \<times> collection" where
  "get this payloads fault pfault now1 now2 s =
     (case findOneAndUpdate fault (claimable (maxRetries (this_options this)) now1)
             (sort_key createdAt) (claim this now2) s of
        (Inl e, s') \<Rightarrow> (Inl e, s')
      | (Inr None, s') \<Rightarrow> (Inr None, s')
      | (Inr (Some j), s') \<Rightarrow>
          (case pfault of
             Some e \<Rightarrow> (Inl e, s')
           | None \<Rightarrow>
               (Inr (Some \<lparr>v_id = job_id j, v_payload = populate payloads (payload j),
                           v_blockedUntil = blockedUntil j, v_done = is_done j\<rparr>), s')))"

definition ack ::
  "queue \<Rightarrow> err option \<Rightarrow> object_id \<Rightarrow> collection \<Rightarrow> (err + job_view) \<times> collection" where
  "ack this fault jobId s =
     (case findOneAndUpdate fault (\<lambda>j. job_id j = jobId) (\<lambda>ds. ds) (\<lambda>j. j\<lparr>is_done := True\<rparr>) s of
        (Inl e, s') \<Rightarrow> (Inl e, s')
      | (Inr None, s') \<Rightarrow> (Inl (Error ''Job id invalid, job not found.''), s')
      | (Inr (Some j), s') \<Rightarrow>
          (Inr \<lparr>v_id = job_id j, v_payload = payload j,
                v_blockedUntil = blockedUntil j, v_done = is_done j\<rparr>, s'))"

definition error ::
  "queue \<Rightarrow> err option \<Rightarrow> object_id \<Rightarrow> string \<Rightarrow> collection \<Rightarrow> (err + error_view) \<times> collection" where
  "error this fault jobId msg s =
     (case findOneAndUpdate fault (\<lambda>j. job_id j = jobId) (\<lambda>ds. ds)
             (\<lambda>j. j\<lparr>is_done := True, error_msg := Some msg\<rparr>) s of
        (Inl e, s') \<Rightarrow> (Inl e, s')
      | (Inr None, s') \<Rightarrow> (Inl (Error ''Job id invalid, job not found.''), s')
      | (Inr (Some j), s') \<Rightarrow>
          (Inr \<lparr>v_id = job_id j, v_payload = payload j,
                v_blockedUntil = blockedUntil j, v_done = is_done j,
                v_error = error_msg j\<rparr>, s'))"

text \<open>
  The job id as a caller hands it to \<^verbatim>\<open>ack\<close> and \<^verbatim>\<open>error\<close>: the ObjectId that
  \<^verbatim>\<open>get\<close> returned, or a string. Mongoose, which is not part of this repository, casts
  the \<^verbatim>\<open>_id\<close> of the query filter to an ObjectId before the query is sent: an ObjectId
  is taken as it is, a string of 24 hexadecimal digits is the id it spells, a string of 12
  characters is the id with those 12 bytes, and any other string fails the cast. A failed
  cast fails the query with a CastError, which reaches the callback of \<^verbatim>\<open>ack\<close> and
  \<^verbatim>\<open>error\<close> as \<^verbatim>\<open>err\<close> and is handed on. \<open>ack\<close> and \<open>error\<close> above take the id
  after the cast; \<open>ack_cast\<close> and \<open>error_cast\<close> take the argument as it is passed.
\<close>

datatype id_arg = IdObject object_id | IdString string

definition is_hex_digit :: "char \<Rightarrow> bool" where
  "is_hex_digit c \<longleftrightarrow> c \<in> set ''0123456789abcdefABCDEF''"

definition lower_hex :: "char \<Rightarrow> char" where
  "lower_hex c =
     (if c = CHR ''A'' then CHR ''a'' else if c = CHR ''B'' then CHR ''b''
      else if c = CHR ''C'' then CHR ''c'' else if c = CHR ''D'' then CHR ''d''
      else if c = CHR ''E'' then CHR ''e'' else if c = CHR ''F'' then CHR ''f'' else c)"

definition byte_hex :: "char \<Rightarrow> string" where
  "byte_hex c =
     [''0123456789abcdef'' ! (of_char c div 16), ''0123456789abcdef'' ! (of_char c mod 16)]"

definition CastError :: "string \<Rightarrow> err" where
  "CastError v =
     Error (''Cast to ObjectId failed for value '' @ [CHR 0x22] @ v @ [CHR 0x22]
            @ '' at path '' @ [CHR 0x22] @ ''_id'' @ [CHR 0x22])"

definition castObjectId :: "id_arg \<Rightarrow> err + object_id" where
  "castObjectId v =
     (case v of
        IdObject i \<Rightarrow> Inr i
      | IdString h \<Rightarrow>
          if length h = 24 \<and> list_all is_hex_digit h then Inr (ObjectId (map lower_hex h))
          else if length h = 12 then Inr (ObjectId (concat (map byte_hex h)))
          else Inl (CastError h))"

definition ack_cast ::
  "queue \<Rightarrow> err option \<Rightarrow> id_arg \<Rightarrow> collection \<Rightarrow> (err + job_view) \<times> collection" where
  "ack_cast this fault jobId s =
     (case castObjectId jobId of
        Inl e \<Rightarrow> (Inl e, s)
      | Inr i \<Rightarrow> ack this fault i s)"

definition error_cast ::
  "queue \<Rightarrow> err option \<Rightarrow> id_arg \<Rightarrow> string \<Rightarrow> collection \<Rightarrow> (err + error_view) \<times> collection" where
  "error_cast this fault jobId msg s =
     (case castObjectId jobId of
        Inl e \<Rightarrow> (Inl e, s)
      | Inr i \<Rightarrow> error this fault i msg s)"

definition clean :: "queue \<Rightarrow> err option \<Rightarrow> collection \<Rightarrow> err option \<times> collection" where
  "clean this fault s =
     remove_docs fault (\<lambda>j. is_done j = True \<or> retries j > maxRetries (this_options this)) s"

definition reset :: "queue \<Rightarrow> err option \<Rightarrow> collection \<Rightarrow> err option \<times> collection" where
  "reset this fault s = remove_docs fault (\<lambda>j. True) s"

section \<open>Racing calls of get\<close>

text \<open>
  Each \<open>get\<close> changes the job collection by one \<^verbatim>\<open>findOneAndUpdate\<close>, which the store
  executes indivisibly; the queue takes no lock and keeps no state of its own. Calls that
  race, from any number of workers, therefore take effect on the collection one after the
  other in some order. A call is the worker's queue object, the failures of its two store
  queries and its two clock readings; \<open>gets\<close> runs the calls in the order in which the store
  executes them and collects what each one returns.
\<close>

type_synonym get_call = "queue \<times> err option \<times> err option \<times> time \<times> time"

fun gets :: "get_call list \<Rightarrow> jsval list \<Rightarrow> collection \<Rightarrow> (err + job_view option) list \<times> collection" where
  "gets [] payloads s = ([], s)"
| "gets ((this, fault, pfault, now1, now2) # cs) payloads s =
     (let (r, s') = get this payloads fault pfault now1 now2 s;
          (rs, s'') = gets cs payloads s'
      in (r # rs, s''))"

fun returned_id :: "err + job_view option \<Rightarrow> object_id list" where
  "returned_id (Inr (Some v)) = [v_id v]"
| "returned_id r = []"

definition returned_ids :: "(err + job_view option) list \<Rightarrow> object_id list" where
  "returned_ids rs = concat (map returned_id rs)"

definition claimable_ids :: "int \<Rightarrow> time \<Rightarrow> collection \<Rightarrow> object_id list" where
  "claimable_ids mr now s = map job_id (filter (claimable mr now) s)"

section \<open>Example data\<close>

text \<open>
  A queue as the test suite builds it, created at clock reading 1000 in a fresh process,
  and job documents as the tests insert them.
\<close>

definition example_queue :: queue where
  "example_queue =
     fst (MongooseQueue ''payload'' (Some ''1234567890'')
            (Some \<lparr>arg_payloadRefType = None, arg_queueCollection = None,
                   arg_blockDuration = None, arg_maxRetries = Some 5\<rparr>)
            ''worker-host'' 1000 None)"

definition example_job :: "string \<Rightarrow> time \<Rightarrow> job" where
  "example_job h t = (new_job (JobModel example_queue) (ObjectId h) (JStr ''p1''))\<lparr>createdAt := t\<rparr>"

definition idle_jobs :: collection where
  "idle_jobs =
     [(example_job ''a1'' 2000)\<lparr>is_done := True\<rparr>,
      (example_job ''a2'' 2001)\<lparr>blockedUntil := 100000\<rparr>,
      (example_job ''a3'' 2002)\<lparr>retries := 6\<rparr>]"

definition clean_jobs :: collection where
  "clean_jobs =
     [example_job ''b1'' 2000,
      (example_job ''b2'' 2001)\<lparr>is_done := True\<rparr>,
      (example_job ''b3'' 2002)\<lparr>is_done := True, error_msg := Some ''Error message''\<rparr>,
      (example_job ''b4'' 2003)\<lparr>retries := 5 + 1\<rparr>]"

definition example_payload :: jsval where
  "example_payload =
     JObj [(''_id'', JStr ''p1''), (''first'', JStr ''First element''),
           (''second'', JStr ''Second element'')]"

definition ack_jobs :: collection where
  "ack_jobs =
     [(example_job ''d1'' 2000)\<lparr>is_done := True\<rparr>,
      example_job ''d2'' 2001,
      example_job ''d3'' 2002,
      example_job ''d4'' 2003]"

definition exhausted_job :: job where
  "exhausted_job = (example_job ''e1'' 2000)\<lparr>retries := 5\<rparr>"

definition string_options :: options_arg where
  "string_options =
     \<lparr>arg_payloadRefType = Some StringType, arg_queueCollection = Some ''other'',
      arg_blockDuration = None, arg_maxRetries = None\<rparr>"

definition unblocked_queue :: queue where
  "unblocked_queue =
     fst (MongooseQueue ''payload'' (Some ''w1'')
            (Some \<lparr>arg_payloadRefType = None, arg_queueCollection = None,
                   arg_blockDuration = Some 0, arg_maxRetries = None\<rparr>)
            ''host-1'' 1000 None)"

definition second_worker :: queue where
  "second_worker = fst (MongooseQueue ''payload'' (Some ''w2'') None ''host-2'' 1500 None)"

definition racing_calls :: "get_call list" where
  "racing_calls =
     [(example_queue, None, None, 3000, 3000),
      (second_worker, None, None, 3001, 3002),
      (second_worker, None, None, 3002, 3002),
      (example_queue, None, None, 3003, 3003)]"

text \<open>A payload document as the payload collection stores it, its id an ObjectId.\<close>

definition saved_payload :: jsval where
  "saved_payload =
     JObj [(''_id'', JStr ''57a9a8c526f9c3c114f0aa01''), (''first'', JStr ''First element''),
           (''second'', JStr ''Second element'')]"

section \<open>Facts about the store operations\<close>

lemma update_first_none: "\<forall>x\<in>set xs. \<not> P x \<Longrightarrow> update_first P f xs = xs"
  by (induction xs) auto

lemma filter_empty_no_match: "filter P xs = [] \<longleftrightarrow> (\<forall>x\<in>set xs. \<not> P x)"
  by (induction xs) auto

lemma sort_key_empty_iff: "sort_key k xs = [] \<longleftrightarrow> xs = []"
  by (metis length_sort length_0_conv)

lemma findOneAndUpdate_no_match:
  "\<forall>j\<in>set s. \<not> flt j \<Longrightarrow> findOneAndUpdate None flt (sort_key k) upd s = (Inr None, s)"
  by (simp add: findOneAndUpdate_def filter_empty_no_match [THEN iffD2] sort_key_empty_iff)

lemma findOneAndUpdate_no_match_unsorted:
  "\<forall>j\<in>set s. \<not> flt j \<Longrightarrow> findOneAndUpdate None flt (\<lambda>ds. ds) upd s = (Inr None, s)"
  by (simp add: findOneAndUpdate_def filter_empty_no_match [THEN iffD2])

lemma find_filter_case:
  "(case filter P xs of [] \<Rightarrow> a | j # _ \<Rightarrow> b j) = (case find P xs of None \<Rightarrow> a | Some j \<Rightarrow> b j)"
  by (induction xs) auto

lemma find_Some_holds: "find P xs = Some x \<Longrightarrow> P x \<and> x \<in> set xs"
  by (induction xs) (simp_all split: if_splits)

lemma findOneAndUpdate_by_id:
  "findOneAndUpdate None (\<lambda>j. job_id j = i) (\<lambda>ds. ds) upd s =
     (case find (\<lambda>j. job_id j = i) s of
        None \<Rightarrow> (Inr None, s)
      | Some j \<Rightarrow> (Inr (Some (upd j)), update_first (\<lambda>d. job_id d = i) upd s))"
proof (cases "find (\<lambda>j. job_id j = i) s")
  case None
  then show ?thesis by (simp add: findOneAndUpdate_def find_filter_case)
next
  case (Some j)
  then have "job_id j = i" using find_Some_holds [of "\<lambda>j. job_id j = i" s j] by simp
  with Some show ?thesis by (simp add: findOneAndUpdate_def find_filter_case)
qed

lemma find_None_ids: "find (\<lambda>j. job_id j = i) s = None \<longleftrightarrow> i \<notin> set (ids s)"
  by (induction s) (auto simp: ids_def)

lemma find_update_first:
  assumes "\<And>x. P x \<Longrightarrow> P (f x)"
  shows "find P (update_first P f xs) = map_option f (find P xs)"
  by (induction xs) (simp_all add: assms)

lemma update_first_idem:
  assumes "\<And>x. P x \<Longrightarrow> P (f x)" and "\<And>x. f (f x) = f x"
  shows "update_first P f (update_first P f xs) = update_first P f xs"
  by (induction xs) (simp_all add: assms)

lemma ids_update_first:
  assumes "\<And>x. job_id (f x) = job_id x"
  shows "ids (update_first P f s) = ids s"
  by (induction s) (simp_all add: ids_def assms)

lemma update_first_distinct:
  "distinct (ids s) \<Longrightarrow>
   update_first (\<lambda>d. job_id d = i) f s = map (\<lambda>d. if job_id d = i then f d else d) s"
proof (induction s)
  case Nil
  then show ?case by simp
next
  case (Cons a s)
  show ?case
  proof (cases "job_id a = i")
    case True
    from Cons.prems have "job_id a \<notin> job_id ` set s"
      by (simp add: ids_def)
    with True have "\<forall>d\<in>set s. job_id d \<noteq> i"
      by (metis imageI)
    then have "map (\<lambda>d. if job_id d = i then f d else d) s = s"
      by (simp add: map_idI)
    with True show ?thesis by simp
  next
    case False
    with Cons show ?thesis by (simp add: ids_def)
  qed
qed

lemma find_distinct_ids:
  "distinct (ids s) \<Longrightarrow> j \<in> set s \<Longrightarrow> find (\<lambda>d. job_id d = job_id j) s = Some j"
proof (induction s)
  case Nil
  then show ?case by simp
next
  case (Cons a s)
  show ?case
  proof (cases "job_id a = job_id j")
    case True
    from Cons.prems(1) have "job_id a \<notin> job_id ` set s"
      by (simp add: ids_def)
    with True have "j \<notin> set s"
      by (metis imageI)
    with Cons.prems(2) True show ?thesis by simp
  next
    case False
    with Cons show ?thesis by (auto simp: ids_def)
  qed
qed

lemma same_id_same_job:
  "distinct (ids s) \<Longrightarrow> j \<in> set s \<Longrightarrow> d \<in> set s \<Longrightarrow> job_id d = job_id j \<longleftrightarrow> d = j"
  by (metis find_distinct_ids option.inject)

lemma update_job_distinct:
  assumes "distinct (ids s)" and "j \<in> set s"
  shows "update_first (\<lambda>d. job_id d = job_id j) f s = map (\<lambda>d. if d = j then f j else d) s"
proof -
  have "map (\<lambda>d. if job_id d = job_id j then f d else d) s = map (\<lambda>d. if d = j then f j else d) s"
    using same_id_same_job [OF assms] by (intro map_cong) auto
  with update_first_distinct [OF assms(1)] show ?thesis by simp
qed

lemma ack_found:
  assumes "find (\<lambda>d. job_id d = jobId) s = Some j"
  shows "ack this None jobId s =
           (Inr \<lparr>v_id = jobId, v_payload = payload j, v_blockedUntil = blockedUntil j, v_done = True\<rparr>,
            update_first (\<lambda>d. job_id d = jobId) (\<lambda>d. d\<lparr>is_done := True\<rparr>) s)"
  using assms find_Some_holds [OF assms] by (simp add: ack_def findOneAndUpdate_by_id)

lemma error_found:
  assumes "find (\<lambda>d. job_id d = jobId) s = Some j"
  shows "error this None jobId msg s =
           (Inr \<lparr>v_id = jobId, v_payload = payload j, v_blockedUntil = blockedUntil j, v_done = True,
                 v_error = Some msg\<rparr>,
            update_first (\<lambda>d. job_id d = jobId) (\<lambda>d. d\<lparr>is_done := True, error_msg := Some msg\<rparr>) s)"
  using assms find_Some_holds [OF assms] by (simp add: error_def findOneAndUpdate_by_id)

lemma sort_key_first:
  assumes "sort_key k xs = j # r"
  shows "j \<in> set xs \<and> (\<forall>x\<in>set xs. k j \<le> k x)"
proof -
  have "set (j # r) = set xs"
    using assms set_sort [of k xs] by simp
  moreover have "sorted (map k (j # r))"
    using assms sorted_sort_key [of k xs] by simp
  ultimately show ?thesis
    by auto
qed

lemma findOneAndUpdate_sorted_match:
  assumes "\<exists>j\<in>set s. flt j"
  shows "\<exists>j\<in>set s. flt j \<and> (\<forall>x\<in>set s. flt x \<longrightarrow> k j \<le> k x)
           \<and> findOneAndUpdate None flt (sort_key k) upd s =
               (Inr (Some (upd j)), update_first (\<lambda>d. job_id d = job_id j) upd s)"
proof -
  from assms have "filter flt s \<noteq> []"
    by (simp add: filter_empty_no_match)
  then have "sort_key k (filter flt s) \<noteq> []"
    by (simp add: sort_key_empty_iff)
  then obtain j r where jr: "sort_key k (filter flt s) = j # r"
    by (cases "sort_key k (filter flt s)") auto
  from sort_key_first [OF jr] have "j \<in> set s" "flt j" "\<forall>x\<in>set s. flt x \<longrightarrow> k j \<le> k x"
    by auto
  moreover from jr have "findOneAndUpdate None flt (sort_key k) upd s =
               (Inr (Some (upd j)), update_first (\<lambda>d. job_id d = job_id j) upd s)"
    by (simp add: findOneAndUpdate_def)
  ultimately show ?thesis by blast
qed

lemma get_cases:
  assumes "distinct (ids s)"
  obtains (failed) e where "fault = Some e"
      and "get this payloads fault pfault now1 now2 s = (Inl e, s)"
  | (empty) "fault = None"
      and "\<forall>x\<in>set s. \<not> claimable (maxRetries (this_options this)) now1 x"
      and "get this payloads fault pfault now1 now2 s = (Inr None, s)"
  | (claimed) c where "fault = None" and "c \<in> set s"
      and "claimable (maxRetries (this_options this)) now1 c"
      and "get this payloads fault pfault now1 now2 s =
            ((case pfault of
                Some e \<Rightarrow> Inl e
              | None \<Rightarrow> Inr (Some \<lparr>v_id = job_id c, v_payload = populate payloads (payload c),
                                    v_blockedUntil = now2 + blockDuration (this_options this),
                                    v_done = False\<rparr>)),
             map (\<lambda>d. if d = c then claim this now2 c else d) s)"
proof (cases fault)
  case (Some e)
  then have "get this payloads fault pfault now1 now2 s = (Inl e, s)"
    by (simp add: get_def findOneAndUpdate_def)
  with Some show ?thesis by (rule failed)
next
  case None
  let ?mr = "maxRetries (this_options this)"
  show ?thesis
  proof (cases "\<exists>x\<in>set s. claimable ?mr now1 x")
    case False
    then have "get this payloads fault pfault now1 now2 s = (Inr None, s)"
      using None by (simp add: get_def findOneAndUpdate_no_match)
    with None False show ?thesis by (intro empty) auto
  next
    case True
    from findOneAndUpdate_sorted_match [OF True, of createdAt "claim this now2"]
    obtain c where c: "c \<in> set s" "claimable ?mr now1 c"
      "findOneAndUpdate None (claimable ?mr now1) (sort_key createdAt) (claim this now2) s =
         (Inr (Some (claim this now2 c)),
          update_first (\<lambda>d. job_id d = job_id c) (claim this now2) s)"
      by blast
    from c(2) have nd: "is_done c = False"
      by (simp add: claimable_def)
    have "get this payloads fault pfault now1 now2 s =
            ((case pfault of
                Some e \<Rightarrow> Inl e
              | None \<Rightarrow> Inr (Some \<lparr>v_id = job_id c, v_payload = populate payloads (payload c),
                                    v_blockedUntil = now2 + blockDuration (this_options this),
                                    v_done = False\<rparr>)),
             map (\<lambda>d. if d = c then claim this now2 c else d) s)"
      using None nd
      by (cases pfault) (simp_all add: get_def c(3) update_job_distinct [OF assms c(1)] claim_def)
    with None c(1,2) show ?thesis by (rule claimed)
  qed
qed

lemma get_keeps_ids:
  assumes "distinct (ids s)"
  shows "ids (snd (get this payloads fault pfault now1 now2 s)) = ids s"
  using assms
proof (cases rule: get_cases [where fault = fault and this = this and payloads = payloads
                              and pfault = pfault and ?now1.0 = now1 and ?now2.0 = now2])
  case (failed e)
  then show ?thesis by simp
next
  case empty
  then show ?thesis by simp
next
  case (claimed c)
  have "map job_id (map (\<lambda>d. if d = c then claim this now2 c else d) s) = map job_id s"
    by (simp add: claim_def)
  with claimed(4) show ?thesis by (simp add: ids_def)
qed

lemma JobSchema_cached:
  "JobSchema now collectionName payloadRefType' (Some sch) =
     (\<lparr>modelName = collectionName, modelSchema = sch\<rparr>, Some sch)"
  by (simp add: JobSchema_def)

lemma JobSchema_calls_cached:
  "JobSchema_calls cs (Some sch) =
     (map (\<lambda>(now, collectionName, payloadRefType').
              \<lparr>modelName = collectionName, modelSchema = sch\<rparr>) cs, Some sch)"
  by (induction cs) (auto simp: JobSchema_cached)

lemma claimable_in_window:
  assumes "blockedUntil j < lo \<or> hi \<le> blockedUntil j" and "lo \<le> n" and "n \<le> hi"
  shows "claimable mr n j \<longleftrightarrow> claimable mr lo j"
  using assms by (auto simp: claimable_def)

lemma distinct_claimable_ids: "distinct (ids s) \<Longrightarrow> distinct (claimable_ids mr now s)"
  by (simp add: claimable_ids_def ids_def distinct_map_filter)

lemma set_claimable_ids:
  "set (claimable_ids mr now s) = job_id ` {j \<in> set s. claimable mr now j}"
  by (simp add: claimable_ids_def)

lemma claimable_ids_after_claim:
  assumes d: "distinct (ids s)" and c: "c \<in> set s" and cl: "claimable mr lo c"
    and same: "job_id c' = job_id c" and ncl: "\<not> claimable mr lo c'"
  shows "set (claimable_ids mr lo (map (\<lambda>d. if d = c then c' else d) s)) =
         set (claimable_ids mr lo s) - {job_id c}"
proof -
  have other: "job_id x \<noteq> job_id c" if "x \<in> set s" "x \<noteq> c" for x
    using same_id_same_job [OF d c that(1)] that(2) by simp
  show ?thesis
  proof (intro set_eqI iffI)
    fix i assume "i \<in> set (claimable_ids mr lo (map (\<lambda>d. if d = c then c' else d) s))"
    then obtain x where x: "x \<in> set s" "claimable mr lo (if x = c then c' else x)"
        "i = job_id (if x = c then c' else x)"
      by (auto simp: set_claimable_ids)
    with ncl have "x \<noteq> c" by auto
    with x other [OF x(1)] show "i \<in> set (claimable_ids mr lo s) - {job_id c}"
      by (auto simp: set_claimable_ids)
  next
    fix i assume "i \<in> set (claimable_ids mr lo s) - {job_id c}"
    then obtain x where x: "x \<in> set s" "claimable mr lo x" "i = job_id x" "job_id x \<noteq> job_id c"
      by (auto simp: set_claimable_ids)
    then have "x \<noteq> c" by auto
    with x have "(if x = c then c' else x) = x" by simp
    have "(if x = c then c' else x) \<in> set (map (\<lambda>d. if d = c then c' else d) s)"
      using x(1) by (simp only: set_map) (rule imageI)
    with \<open>(if x = c then c' else x) = x\<close> have "x \<in> set (map (\<lambda>d. if d = c then c' else d) s)"
      by simp
    with x(2,3) show "i \<in> set (claimable_ids mr lo (map (\<lambda>d. if d = c then c' else d) s))"
      unfolding set_claimable_ids by blast
  qed
qed

lemma get_in_window:
  assumes d: "distinct (ids s)"
    and settled: "\<forall>j\<in>set s. blockedUntil j < lo \<or> hi \<le> blockedUntil j"
    and mr: "maxRetries (this_options this) = mr"
    and w: "lo \<le> now1" "now1 \<le> hi" "hi \<le> now2 + blockDuration (this_options this)"
  obtains (failed) e where "fault = Some e"
      and "get this payloads fault pfault now1 now2 s = (Inl e, s)"
  | (empty) "fault = None" and "claimable_ids mr lo s = []"
      and "get this payloads fault pfault now1 now2 s = (Inr None, s)"
  | (claimed) r s' i where "fault = None"
      and "get this payloads fault pfault now1 now2 s = (r, s')"
      and "distinct (ids s')"
      and "\<forall>j\<in>set s'. blockedUntil j < lo \<or> hi \<le> blockedUntil j"
      and "i \<in> set (claimable_ids mr lo s)"
      and "set (claimable_ids mr lo s') = set (claimable_ids mr lo s) - {i}"
      and "returned_id r = (if pfault = None then [i] else [])"
      and "r \<noteq> Inr None"
  using d
proof (cases rule: get_cases [where fault = fault and this = this and payloads = payloads
                              and pfault = pfault and ?now1.0 = now1 and ?now2.0 = now2])
  case (failed e)
  then show ?thesis by (rule that(1))
next
  case empty
  have "\<not> claimable mr lo x" if "x \<in> set s" for x
    using empty(2) that settled claimable_in_window [of x lo hi now1 mr] w(1,2) mr by auto
  then have "claimable_ids mr lo s = []"
    by (simp add: claimable_ids_def filter_empty_no_match)
  with empty(1) show ?thesis using empty(3) by (rule that(2))
next
  case (claimed c)
  let ?c' = "claim this now2 c"
  let ?s' = "map (\<lambda>d. if d = c then ?c' else d) s"
  let ?r = "case pfault of
              Some e \<Rightarrow> Inl e
            | None \<Rightarrow> Inr (Some \<lparr>v_id = job_id c, v_payload = populate payloads (payload c),
                                  v_blockedUntil = now2 + blockDuration (this_options this),
                                  v_done = False\<rparr>)"
  have cl: "claimable mr lo c"
    using claimed(2,3) settled claimable_in_window [of c lo hi now1 mr] w(1,2) mr by auto
  have blocked: "hi \<le> blockedUntil ?c'"
    using w(3) by (simp add: claim_def)
  then have ncl: "\<not> claimable mr lo ?c'"
    using w(1,2) by (simp add: claimable_def)
  have same: "job_id ?c' = job_id c"
    by (simp add: claim_def)
  have "ids ?s' = ids s"
    using get_keeps_ids [OF d, of this payloads fault pfault now1 now2] claimed(4) by simp
  with d have 1: "distinct (ids ?s')" by simp
  have 2: "\<forall>j\<in>set ?s'. blockedUntil j < lo \<or> hi \<le> blockedUntil j"
    using settled blocked by auto
  have 3: "job_id c \<in> set (claimable_ids mr lo s)"
    using claimed(2) cl by (auto simp: set_claimable_ids)
  have 4: "set (claimable_ids mr lo ?s') = set (claimable_ids mr lo s) - {job_id c}"
    by (rule claimable_ids_after_claim [OF d claimed(2) cl same ncl])
  have 5: "returned_id ?r = (if pfault = None then [job_id c] else [])"
    by (cases pfault) simp_all
  have 6: "?r \<noteq> Inr None"
    by (cases pfault) simp_all
  from claimed(1) claimed(4) 1 2 3 4 5 6 show ?thesis
    by (rule that(3))
qed

lemma returned_ids_Cons: "returned_ids (r # rs) = returned_id r @ returned_ids rs"
  by (simp add: returned_ids_def)

lemma gets_Cons:
  "gets ((this, fault, pfault, now1, now2) # cs) payloads s =
     (fst (get this payloads fault pfault now1 now2 s)
        # fst (gets cs payloads (snd (get this payloads fault pfault now1 now2 s))),
      snd (gets cs payloads (snd (get this payloads fault pfault now1 now2 s))))"
  by (simp add: Let_def split_beta)

text \<open>
  Ids are unique in the collection: the empty collection has unique ids, and every
  operation of the queue keeps them unique. \<open>ack\<close> and \<open>error\<close> leave every
  \<open>blockedUntil\<close> as it is; a queue built in a fresh process gives new jobs the clock
  reading of its construction as \<open>blockedUntil\<close>.
\<close>

lemma findOneAndUpdate_keeps_ids:
  assumes "\<And>x. job_id (upd x) = job_id x"
  shows "ids (snd (findOneAndUpdate fault flt srt upd s)) = ids s"
  by (simp add: findOneAndUpdate_def ids_update_first [of upd, OF assms]
           split: option.split list.split)

lemma add_keeps_distinct:
  "distinct (ids s) \<Longrightarrow> distinct (ids (snd (add this fault new_id now p s)))"
  by (simp add: add_def save_def new_job_def ids_def Let_def split: option.split)

lemma ack_keeps_ids: "ids (snd (ack this fault jobId s)) = ids s"
proof -
  have "snd (ack this fault jobId s) =
        snd (findOneAndUpdate fault (\<lambda>j. job_id j = jobId) (\<lambda>ds. ds) (\<lambda>j. j\<lparr>is_done := True\<rparr>) s)"
    by (simp add: ack_def split: prod.split sum.split option.split)
  then show ?thesis
    by (simp add: findOneAndUpdate_keeps_ids)
qed

lemma error_keeps_ids: "ids (snd (error this fault jobId msg s)) = ids s"
proof -
  have "snd (error this fault jobId msg s) =
        snd (findOneAndUpdate fault (\<lambda>j. job_id j = jobId) (\<lambda>ds. ds)
               (\<lambda>j. j\<lparr>is_done := True, error_msg := Some msg\<rparr>) s)"
    by (simp add: error_def split: prod.split sum.split option.split)
  then show ?thesis
    by (simp add: findOneAndUpdate_keeps_ids)
qed

lemma clean_keeps_distinct:
  "distinct (ids s) \<Longrightarrow> distinct (ids (snd (clean this fault s)))"
  by (simp add: clean_def remove_docs_def ids_def distinct_map_filter split: option.split)

lemma reset_empties: "reset this None s = (None, [])"
  by (simp add: reset_def remove_docs_def)

lemma update_first_keeps_field:
  assumes "\<And>x. g (f x) = g x"
  shows "map g (update_first P f xs) = map g xs"
  by (induction xs) (simp_all add: assms)

lemma ack_keeps_blockedUntil:
  "map blockedUntil (snd (ack this fault jobId s)) = map blockedUntil s"
  by (simp add: ack_def findOneAndUpdate_def update_first_keeps_field
           split: option.split list.split)

lemma error_keeps_blockedUntil:
  "map blockedUntil (snd (error this fault jobId msg s)) = map blockedUntil s"
  by (simp add: error_def findOneAndUpdate_def update_first_keeps_field
           split: option.split list.split)

lemma fresh_queue_blockedUntil_default:
  "blockedUntil_default (modelSchema (JobModel (fst (MongooseQueue pm w opts host t0 None)))) = t0"
  by (simp add: MongooseQueue_def JobSchema_def Let_def)

lemma gets_in_window:
  assumes "\<forall>(this, fault, pfault, now1, now2)\<in>set cs.
             maxRetries (this_options this) = mr \<and> lo \<le> now1 \<and> now1 \<le> hi
             \<and> hi \<le> now2 + blockDuration (this_options this)"
    and "distinct (ids s)"
    and "\<forall>j\<in>set s. blockedUntil j < lo \<or> hi \<le> blockedUntil j"
  shows "distinct (returned_ids (fst (gets cs payloads s)))
       \<and> set (returned_ids (fst (gets cs payloads s))) \<subseteq> set (claimable_ids mr lo s)
       \<and> ((\<forall>(this, fault, pfault, now1, now2)\<in>set cs. fault = None \<and> pfault = None) \<longrightarrow>
            length (returned_ids (fst (gets cs payloads s)))
              = min (length cs) (length (claimable_ids mr lo s))
            \<and> length (filter (\<lambda>r. r = Inr None) (fst (gets cs payloads s)))
              = length cs - min (length cs) (length (claimable_ids mr lo s)))"
  using assms
proof (induction cs arbitrary: s)
  case Nil
  then show ?case by (simp add: returned_ids_def)
next
  case (Cons call cs)
  obtain this fault pfault now1 now2 where call: "call = (this, fault, pfault, now1, now2)"
    by (cases call) auto
  let ?g = "get this payloads fault pfault now1 now2 s"
  let ?rs = "fst (gets cs payloads (snd ?g))"
  have rest: "\<forall>(this, fault, pfault, now1, now2)\<in>set cs.
             maxRetries (this_options this) = mr \<and> lo \<le> now1 \<and> now1 \<le> hi
             \<and> hi \<le> now2 + blockDuration (this_options this)"
    using Cons.prems(1) by simp
  have here: "maxRetries (this_options this) = mr" "lo \<le> now1" "now1 \<le> hi"
      "hi \<le> now2 + blockDuration (this_options this)"
    using Cons.prems(1) call by simp_all
  have all: "fst (gets (call # cs) payloads s) = fst ?g # ?rs"
    by (simp only: call gets_Cons fst_conv)
  have ids_all: "returned_ids (fst (gets (call # cs) payloads s)) = returned_id (fst ?g) @ returned_ids ?rs"
    by (simp add: all returned_ids_def)
  from Cons.prems(2,3) here show ?case
  proof (cases rule: get_in_window [where fault = fault and payloads = payloads and pfault = pfault])
    case (failed e)
    note ih = Cons.IH [OF rest Cons.prems(2,3)]
    from failed have g: "fst ?g = Inl e" "snd ?g = s" by simp_all
    have nf: "\<not> (\<forall>(this, fault, pfault, now1, now2)\<in>set (call # cs). fault = None \<and> pfault = None)"
      using failed(1) call by simp
    have p1: "distinct (returned_ids (fst (gets (call # cs) payloads s)))"
      unfolding ids_all g using ih by simp
    have p2: "set (returned_ids (fst (gets (call # cs) payloads s))) \<subseteq> set (claimable_ids mr lo s)"
      unfolding ids_all g using ih by simp
    from p1 p2 nf show ?thesis by blast
  next
    case empty
    note ih = Cons.IH [OF rest Cons.prems(2,3)]
    from empty have g: "fst ?g = Inr None" "snd ?g = s" by simp_all
    from ih have none: "returned_ids (fst (gets cs payloads s)) = []"
      using empty(2) by simp
    have p1: "distinct (returned_ids (fst (gets (call # cs) payloads s)))"
      unfolding ids_all g using none by simp
    have p2: "set (returned_ids (fst (gets (call # cs) payloads s))) \<subseteq> set (claimable_ids mr lo s)"
      unfolding ids_all g using none by simp
    have p3: "length (returned_ids (fst (gets (call # cs) payloads s)))
              = min (length (call # cs)) (length (claimable_ids mr lo s))
            \<and> length (filter (\<lambda>r. r = Inr None) (fst (gets (call # cs) payloads s)))
              = length (call # cs) - min (length (call # cs)) (length (claimable_ids mr lo s))"
      if ff: "\<forall>(this, fault, pfault, now1, now2)\<in>set (call # cs). fault = None \<and> pfault = None"
    proof -
      from ff have "\<forall>(this, fault, pfault, now1, now2)\<in>set cs. fault = None \<and> pfault = None"
        by simp
      with ih have "length (filter (\<lambda>r. r = Inr None) (fst (gets cs payloads s)))
              = length cs - min (length cs) (length (claimable_ids mr lo s))"
        by simp
      then show ?thesis
        unfolding all g using none empty(2) by (simp add: returned_ids_Cons)
    qed
    from p1 p2 p3 show ?thesis by blast
  next
    case (claimed r s' i)
    note ih = Cons.IH [OF rest claimed(3,4)]
    from claimed(2) have g: "fst ?g = r" "snd ?g = s'" by simp_all
    have dc: "distinct (claimable_ids mr lo s)" "distinct (claimable_ids mr lo s')"
      using Cons.prems(2) claimed(3) by (simp_all add: distinct_claimable_ids)
    have "card (set (claimable_ids mr lo s')) = card (set (claimable_ids mr lo s)) - 1"
      using claimed(5,6) by simp
    with dc have len: "length (claimable_ids mr lo s') = length (claimable_ids mr lo s) - 1"
      by (simp add: distinct_card)
    have pos: "0 < length (claimable_ids mr lo s)"
      using claimed(5) by (cases "claimable_ids mr lo s") auto
    have fresh: "i \<notin> set (returned_ids (fst (gets cs payloads s')))"
      using ih claimed(6) by auto
    have sub: "set (returned_ids (fst (gets cs payloads s'))) \<subseteq> set (claimable_ids mr lo s)"
      using ih claimed(6) by auto
    have part1: "distinct (returned_ids (fst (gets (call # cs) payloads s)))"
    proof -
      from ih have "distinct (returned_ids (fst (gets cs payloads s')))" by simp
      with fresh show ?thesis
        unfolding ids_all g claimed(7) by (cases pfault) auto
    qed
    have part2: "set (returned_ids (fst (gets (call # cs) payloads s))) \<subseteq> set (claimable_ids mr lo s)"
      unfolding ids_all g claimed(7) using sub claimed(5) by (cases pfault) auto
    have part3: "length (returned_ids (fst (gets (call # cs) payloads s)))
              = min (length (call # cs)) (length (claimable_ids mr lo s))
            \<and> length (filter (\<lambda>r. r = Inr None) (fst (gets (call # cs) payloads s)))
              = length (call # cs) - min (length (call # cs)) (length (claimable_ids mr lo s))"
      if ff: "\<forall>(this, fault, pfault, now1, now2)\<in>set (call # cs). fault = None \<and> pfault = None"
    proof -
      from ff call have pf: "pfault = None" by simp
      from ff have "\<forall>(this, fault, pfault, now1, now2)\<in>set cs. fault = None \<and> pfault = None"
        by simp
      with ih have l: "length (returned_ids (fst (gets cs payloads s')))
              = min (length cs) (length (claimable_ids mr lo s'))"
         "length (filter (\<lambda>r. r = Inr None) (fst (gets cs payloads s')))
              = length cs - min (length cs) (length (claimable_ids mr lo s'))"
        by simp_all
      from pos obtain m where m: "length (claimable_ids mr lo s) = Suc m"
        by (cases "length (claimable_ids mr lo s)") simp_all
      with len have m': "length (claimable_ids mr lo s') = m"
        by simp
      show ?thesis
        unfolding all g m using l [unfolded m'] pf claimed(7,8) by (simp add: returned_ids_Cons)
    qed
    from part1 part2 part3 show ?thesis by blast
  qed
qed

lemma ack_error_not_found:
  assumes "jobId \<notin> set (ids s)"
  shows "ack this None jobId s = (Inl (Error ''Job id invalid, job not found.''), s)
       \<and> error this None jobId msg s = (Inl (Error ''Job id invalid, job not found.''), s)"
  using assms
  by (simp add: ack_def error_def findOneAndUpdate_by_id find_None_ids [THEN iffD2])

lemma ack_error_store_fault:
  "ack this (Some e) jobId s = (Inl e, s) \<and> error this (Some e) jobId msg s = (Inl e, s)"
  by (simp add: ack_def error_def findOneAndUpdate_def)

lemma ids_after_replace:
  assumes d: "distinct (ids s)" and c: "c \<in> set s" and pc: "P c"
    and same: "job_id c' = job_id c" and npc: "\<not> P c'"
  shows "job_id ` {j \<in> set (map (\<lambda>d. if d = c then c' else d) s). P j} =
         job_id ` {j \<in> set s. P j} - {job_id c}"
proof -
  have other: "job_id x \<noteq> job_id c" if "x \<in> set s" "x \<noteq> c" for x
    using same_id_same_job [OF d c that(1)] that(2) by simp
  show ?thesis
  proof (intro set_eqI iffI)
    fix i assume "i \<in> job_id ` {j \<in> set (map (\<lambda>d. if d = c then c' else d) s). P j}"
    then obtain x where x: "x \<in> set s" "P (if x = c then c' else x)"
        "i = job_id (if x = c then c' else x)"
      by auto
    with npc have "x \<noteq> c" by auto
    with x other [OF x(1)] show "i \<in> job_id ` {j \<in> set s. P j} - {job_id c}"
      by auto
  next
    fix i assume "i \<in> job_id ` {j \<in> set s. P j} - {job_id c}"
    then obtain x where x: "x \<in> set s" "P x" "i = job_id x" "job_id x \<noteq> job_id c"
      by auto
    then have "x \<noteq> c" by auto
    with x have "(if x = c then c' else x) = x" by simp
    have "(if x = c then c' else x) \<in> set (map (\<lambda>d. if d = c then c' else d) s)"
      using x(1) by (simp only: set_map) (rule imageI)
    with \<open>(if x = c then c' else x) = x\<close> have "x \<in> set (map (\<lambda>d. if d = c then c' else d) s)"
      by simp
    with x(2,3) show "i \<in> job_id ` {j \<in> set (map (\<lambda>d. if d = c then c' else d) s). P j}"
      by blast
  qed
qed

lemma get_blocks_until:
  assumes d: "distinct (ids s)"
    and w: "now1 \<le> hi" "hi \<le> now2 + blockDuration (this_options this)"
  obtains (unchanged) "returned_id (fst (get this payloads fault pfault now1 now2 s)) = []"
      and "snd (get this payloads fault pfault now1 now2 s) = s"
  | (claimed) i where "i \<in> job_id ` {j \<in> set s. blockedUntil j < hi}"
      and "job_id ` {j \<in> set (snd (get this payloads fault pfault now1 now2 s)). blockedUntil j < hi} =
           job_id ` {j \<in> set s. blockedUntil j < hi} - {i}"
      and "set (returned_id (fst (get this payloads fault pfault now1 now2 s))) \<subseteq> {i}"
      and "distinct (ids (snd (get this payloads fault pfault now1 now2 s)))"
  using d
proof (cases rule: get_cases [where fault = fault and this = this and payloads = payloads
                              and pfault = pfault and ?now1.0 = now1 and ?now2.0 = now2])
  case (failed e)
  then show ?thesis by (intro that(1)) simp_all
next
  case empty
  then show ?thesis by (intro that(1)) simp_all
next
  case (claimed c)
  let ?c' = "claim this now2 c"
  let ?P = "\<lambda>j. blockedUntil j < hi"
  have pc: "?P c"
    using claimed(3) w(1) by (simp add: claimable_def)
  have npc: "\<not> ?P ?c'"
    using w(2) by (simp add: claim_def)
  have same: "job_id ?c' = job_id c"
    by (simp add: claim_def)
  have s': "snd (get this payloads fault pfault now1 now2 s) = map (\<lambda>d. if d = c then ?c' else d) s"
    by (simp add: claimed(4))
  have 1: "job_id c \<in> job_id ` {j \<in> set s. ?P j}"
    using claimed(2) pc by blast
  have 2: "job_id ` {j \<in> set (snd (get this payloads fault pfault now1 now2 s)). ?P j} =
           job_id ` {j \<in> set s. ?P j} - {job_id c}"
    unfolding s' by (rule ids_after_replace [OF d claimed(2) pc same npc])
  have 3: "set (returned_id (fst (get this payloads fault pfault now1 now2 s))) \<subseteq> {job_id c}"
    by (simp add: claimed(4) split: option.split)
  have 4: "distinct (ids (snd (get this payloads fault pfault now1 now2 s)))"
    using d by (simp add: get_keeps_ids)
  from 1 2 3 4 show ?thesis by (rule that(2))
qed

lemma gets_distinct:
  assumes "distinct (ids s)"
    and "\<forall>(this, fault, pfault, now1, now2)\<in>set cs.
           now1 \<le> hi \<and> hi \<le> now2 + blockDuration (this_options this)"
  shows "distinct (returned_ids (fst (gets cs payloads s)))
       \<and> set (returned_ids (fst (gets cs payloads s))) \<subseteq> job_id ` {j \<in> set s. blockedUntil j < hi}"
  using assms
proof (induction cs arbitrary: s)
  case Nil
  then show ?case by (simp add: returned_ids_def)
next
  case (Cons call cs)
  obtain this fault pfault now1 now2 where call: "call = (this, fault, pfault, now1, now2)"
    by (cases call) auto
  let ?g = "get this payloads fault pfault now1 now2 s"
  let ?rs = "fst (gets cs payloads (snd ?g))"
  have rest: "\<forall>(this, fault, pfault, now1, now2)\<in>set cs.
           now1 \<le> hi \<and> hi \<le> now2 + blockDuration (this_options this)"
    using Cons.prems(2) by simp
  have here: "now1 \<le> hi" "hi \<le> now2 + blockDuration (this_options this)"
    using Cons.prems(2) call by simp_all
  have all: "fst (gets (call # cs) payloads s) = fst ?g # ?rs"
    by (simp only: call gets_Cons fst_conv)
  have ids_all: "returned_ids (fst (gets (call # cs) payloads s)) = returned_id (fst ?g) @ returned_ids ?rs"
    by (simp only: all returned_ids_Cons)
  from Cons.prems(1) here show ?case
  proof (cases rule: get_blocks_until [where fault = fault and payloads = payloads and pfault = pfault])
    case unchanged
    from Cons.IH [OF Cons.prems(1) rest] show ?thesis
      unfolding ids_all unchanged by simp
  next
    case (claimed i)
    note ih = Cons.IH [OF claimed(4) rest]
    from ih have dr: "distinct (returned_ids ?rs)" by simp
    from ih claimed(2) have sub: "set (returned_ids ?rs) \<subseteq> job_id ` {j \<in> set s. blockedUntil j < hi} - {i}"
      by simp
    then have fresh: "i \<notin> set (returned_ids ?rs)" by blast
    have single: "distinct (returned_id (fst ?g))"
      by (cases "fst ?g" rule: returned_id.cases) simp_all
    have p1: "distinct (returned_ids (fst (gets (call # cs) payloads s)))"
      unfolding ids_all using dr single fresh claimed(3) by auto
    have p2: "set (returned_ids (fst (gets (call # cs) payloads s)))
                \<subseteq> job_id ` {j \<in> set s. blockedUntil j < hi}"
      unfolding ids_all using sub claimed(1,3) by auto
    from p1 p2 show ?thesis by simp
  qed
qed

section \<open>The example data, evaluated\<close>

lemma example_queue_eq:
  "example_queue =
     \<lparr>payloadModel = ''payload'', this_workerHostname = ''worker-host'',
      this_workerId = ''1234567890'',
      this_options = \<lparr>payloadRefType = ObjectIdType, queueCollection = ''queue'',
                       blockDuration = 30000, maxRetries = 5\<rparr>,
      JobModel = \<lparr>modelName = ''queue'',
                   modelSchema = \<lparr>blockedUntil_default = 1000, retries_default = 0,
                                   done_default = False, payload_type = ObjectIdType\<rparr>\<rparr>\<rparr>"
  by (simp add: example_queue_def MongooseQueue_def defaults_def JobSchema_def Let_def)

lemma example_job_eq:
  "example_job h t =
     \<lparr>job_id = ObjectId h, payload = JStr ''p1'', createdAt = t, blockedUntil = 1000,
      workerHostname = None, workerId = None, retries = 0, is_done = False, error_msg = None\<rparr>"
  by (simp add: example_job_def new_job_def example_queue_eq)

lemma unblocked_queue_eq:
  "unblocked_queue =
     \<lparr>payloadModel = ''payload'', this_workerHostname = ''host-1'',
      this_workerId = ''w1'',
      this_options = \<lparr>payloadRefType = ObjectIdType, queueCollection = ''queue'',
                       blockDuration = 0, maxRetries = 5\<rparr>,
      JobModel = \<lparr>modelName = ''queue'',
                   modelSchema = \<lparr>blockedUntil_default = 1000, retries_default = 0,
                                   done_default = False, payload_type = ObjectIdType\<rparr>\<rparr>\<rparr>"
  by (simp add: unblocked_queue_def MongooseQueue_def defaults_def JobSchema_def Let_def)

lemma second_worker_eq:
  "second_worker =
     \<lparr>payloadModel = ''payload'', this_workerHostname = ''host-2'',
      this_workerId = ''w2'',
      this_options = \<lparr>payloadRefType = ObjectIdType, queueCollection = ''queue'',
                       blockDuration = 30000, maxRetries = 5\<rparr>,
      JobModel = \<lparr>modelName = ''queue'',
                   modelSchema = \<lparr>blockedUntil_default = 1500, retries_default = 0,
                                   done_default = False, payload_type = ObjectIdType\<rparr>\<rparr>\<rparr>"
  by (simp add: second_worker_def MongooseQueue_def defaults_def JobSchema_def Let_def)

section \<open>Claims\<close>

text \<open>
  C9. When no job of the collection is claimable (not done, \<open>blockedUntil\<close> before the
  clock reading, \<open>retries\<close> at most \<open>maxRetries\<close>), \<open>get\<close> returns empty and no error,
  and the collection is left as it was; the empty result \<open>Inr None\<close> differs from every
  error result \<open>Inl e\<close>.
\<close>

theorem get_empty_when_nothing_claimable:
  assumes "\<forall>j\<in>set s. \<not> claimable (maxRetries (this_options this)) now1 j"
  shows "get this payloads None pfault now1 now2 s = (Inr None, s)
         \<and> (\<forall>e. fst (get this payloads None pfault now1 now2 s) \<noteq> Inl e)"
  using assms by (simp add: get_def findOneAndUpdate_no_match)

theorem get_empty_when_nothing_claimable_witness:
  "list_all (\<lambda>j. \<not> claimable (maxRetries (this_options example_queue)) 3000 j) idle_jobs
   \<and> get example_queue [] None None 3000 3000 idle_jobs = (Inr None, idle_jobs)"
proof -
  have h: "\<forall>j\<in>set idle_jobs. \<not> claimable (maxRetries (this_options example_queue)) 3000 j"
    by (simp add: idle_jobs_def example_job_eq example_queue_eq claimable_def)
  from get_empty_when_nothing_claimable [OF h, of "[]" None 3000] h show ?thesis
    by (simp add: list_all_iff)
qed

text \<open>
  C8. \<open>clean\<close> deletes exactly the jobs that are done or whose \<open>retries\<close> exceeds
  \<open>maxRetries\<close>: what is left is the collection restricted, in its order and with every
  document as it was, to the jobs that are not done and have \<open>retries\<close> at most
  \<open>maxRetries\<close>.
\<close>

theorem clean_deletes_exactly:
  "fst (clean this None s) = None
   \<and> snd (clean this None s) = filter (\<lambda>j. \<not> is_done j \<and> retries j \<le> maxRetries (this_options this)) s
   \<and> set (snd (clean this None s)) = set s - {j. is_done j \<or> retries j > maxRetries (this_options this)}"
proof -
  have "(\<lambda>j. \<not> (is_done j = True \<or> retries j > maxRetries (this_options this))) =
        (\<lambda>j. \<not> is_done j \<and> retries j \<le> maxRetries (this_options this))"
    by auto
  then show ?thesis
    by (auto simp: clean_def remove_docs_def not_less)
qed

text \<open>
  The scenario of the test suite: of an untouched job, a done job, a done job with an error
  and a job with \<open>maxRetries + 1\<close> retries, only the first is left.
\<close>

lemma clean_test_scenario:
  "clean example_queue None clean_jobs = (None, [example_job ''b1'' 2000])"
  using clean_deletes_exactly [of example_queue clean_jobs]
  by (simp add: prod_eq_iff clean_jobs_def example_job_eq example_queue_eq)

text \<open>
  C5. \<open>ack\<close> on the id of a stored job sets \<open>done\<close> whatever the job's state was and
  returns its view with \<open>done = true\<close>; a second \<open>ack\<close> on the same id succeeds with
  the same view and leaves the collection as the first left it; \<open>error\<close> after \<open>ack\<close>
  succeeds, stores its message over whatever message the job had, and \<open>done\<close> stays true.
  Ids are unique in the collection (the store's \<^verbatim>\<open>_id\<close> index).
\<close>

theorem ack_idempotent:
  assumes "distinct (ids s)" and "j \<in> set s"
  shows "ack this None (job_id j) s =
           (Inr \<lparr>v_id = job_id j, v_payload = payload j, v_blockedUntil = blockedUntil j, v_done = True\<rparr>,
            map (\<lambda>d. if d = j then j\<lparr>is_done := True\<rparr> else d) s)
       \<and> ack this None (job_id j) (snd (ack this None (job_id j) s)) = ack this None (job_id j) s
       \<and> error this None (job_id j) msg (snd (ack this None (job_id j) s)) =
           (Inr \<lparr>v_id = job_id j, v_payload = payload j, v_blockedUntil = blockedUntil j, v_done = True,
                 v_error = Some msg\<rparr>,
            map (\<lambda>d. if d = j then j\<lparr>is_done := True, error_msg := Some msg\<rparr> else d) s)"
proof -
  let ?P = "\<lambda>d. job_id d = job_id j"
  let ?f = "\<lambda>d. d\<lparr>is_done := True\<rparr>"
  let ?g = "\<lambda>d. d\<lparr>is_done := True, error_msg := Some msg\<rparr>"
  let ?s1 = "update_first ?P ?f s"
  have found: "find ?P s = Some j"
    by (rule find_distinct_ids [OF assms])
  have found1: "find ?P ?s1 = Some (?f j)"
    using found by (simp add: find_update_first)
  have first: "ack this None (job_id j) s =
      (Inr \<lparr>v_id = job_id j, v_payload = payload j, v_blockedUntil = blockedUntil j, v_done = True\<rparr>, ?s1)"
    using ack_found [OF found] by simp
  have second: "ack this None (job_id j) ?s1 =
      (Inr \<lparr>v_id = job_id j, v_payload = payload j, v_blockedUntil = blockedUntil j, v_done = True\<rparr>, ?s1)"
    using ack_found [OF found1] by (simp add: update_first_idem)
  have gf: "update_first ?P ?g ?s1 = update_first ?P ?g s"
    by (induction s) simp_all
  have third: "error this None (job_id j) msg ?s1 =
      (Inr \<lparr>v_id = job_id j, v_payload = payload j, v_blockedUntil = blockedUntil j, v_done = True,
            v_error = Some msg\<rparr>, update_first ?P ?g s)"
    using error_found [OF found1] by (simp add: gf)
  show ?thesis
    using first second third by (simp add: update_job_distinct [OF assms])
qed

theorem ack_idempotent_witness:
  "ack example_queue None (ObjectId ''d3'') ack_jobs =
     (Inr \<lparr>v_id = ObjectId ''d3'', v_payload = JStr ''p1'', v_blockedUntil = 1000, v_done = True\<rparr>,
      [(example_job ''d1'' 2000)\<lparr>is_done := True\<rparr>, example_job ''d2'' 2001,
       (example_job ''d3'' 2002)\<lparr>is_done := True\<rparr>, example_job ''d4'' 2003])
   \<and> ack example_queue None (ObjectId ''d3'') (snd (ack example_queue None (ObjectId ''d3'') ack_jobs))
       = ack example_queue None (ObjectId ''d3'') ack_jobs
   \<and> error example_queue None (ObjectId ''d3'') ''Job failed''
         (snd (ack example_queue None (ObjectId ''d3'') ack_jobs)) =
     (Inr \<lparr>v_id = ObjectId ''d3'', v_payload = JStr ''p1'', v_blockedUntil = 1000, v_done = True,
           v_error = Some ''Job failed''\<rparr>,
      [(example_job ''d1'' 2000)\<lparr>is_done := True\<rparr>, example_job ''d2'' 2001,
       (example_job ''d3'' 2002)\<lparr>is_done := True, error_msg := Some ''Job failed''\<rparr>,
       example_job ''d4'' 2003])"
proof -
  have d: "distinct (ids ack_jobs)"
    by (simp add: ack_jobs_def ids_def example_job_eq)
  have m: "example_job ''d3'' 2002 \<in> set ack_jobs"
    by (simp add: ack_jobs_def)
  have s1: "map (\<lambda>d. if d = example_job ''d3'' 2002 then (example_job ''d3'' 2002)\<lparr>is_done := True\<rparr> else d)
              ack_jobs =
            [(example_job ''d1'' 2000)\<lparr>is_done := True\<rparr>, example_job ''d2'' 2001,
             (example_job ''d3'' 2002)\<lparr>is_done := True\<rparr>, example_job ''d4'' 2003]"
    by (simp add: ack_jobs_def example_job_eq)
  have s2: "map (\<lambda>d. if d = example_job ''d3'' 2002
                       then (example_job ''d3'' 2002)\<lparr>is_done := True, error_msg := Some ''Job failed''\<rparr>
                       else d) ack_jobs =
            [(example_job ''d1'' 2000)\<lparr>is_done := True\<rparr>, example_job ''d2'' 2001,
             (example_job ''d3'' 2002)\<lparr>is_done := True, error_msg := Some ''Job failed''\<rparr>,
             example_job ''d4'' 2003]"
    by (simp add: ack_jobs_def example_job_eq)
  have f: "job_id (example_job ''d3'' 2002) = ObjectId ''d3''"
          "payload (example_job ''d3'' 2002) = JStr ''p1''"
          "blockedUntil (example_job ''d3'' 2002) = 1000"
    by (simp_all add: example_job_eq)
  show ?thesis
    using ack_idempotent [OF d m, of example_queue "''Job failed''"]
    unfolding s1 s2 f .
qed

text \<open>
  C7. \<open>add\<close> fails with "Payload missing." when the payload is null (or any other falsy
  value), and with "Payload is no valid Mongoose document." when the payload is present but
  has no (truthy) \<^verbatim>\<open>_id\<close>; in both cases the collection is unchanged, whatever the
  store would have answered. Otherwise, the store accepting the insert, one job is appended
  whose payload is the payload's \<^verbatim>\<open>_id\<close>, every other field at the schema's default,
  and the new job's identifier is returned as a string.
\<close>

theorem add_outcomes:
  "add this fault new_id now JNull s = (Inl (Error ''Payload missing.''), s)
   \<and> (\<not> truthy p \<longrightarrow> add this fault new_id now p s = (Inl (Error ''Payload missing.''), s))
   \<and> (truthy p \<and> \<not> truthy (property p ''_id'') \<longrightarrow>
        add this fault new_id now p s = (Inl (Error ''Payload is no valid Mongoose document.''), s))
   \<and> (truthy p \<and> truthy (property p ''_id'') \<and> new_id \<notin> set (ids s) \<longrightarrow>
        add this None new_id now p s =
          (Inr (toString new_id),
           s @ [\<lparr>job_id = new_id, payload = property p ''_id'', createdAt = now,
                  blockedUntil = blockedUntil_default (modelSchema (JobModel this)),
                  workerHostname = None, workerId = None,
                  retries = retries_default (modelSchema (JobModel this)),
                  is_done = done_default (modelSchema (JobModel this)),
                  error_msg = None\<rparr>]))"
  by (simp add: add_def save_def new_job_def Let_def)

theorem add_outcomes_witness:
  "add example_queue None (ObjectId ''c1'') 4000 JNull clean_jobs
     = (Inl (Error ''Payload missing.''), clean_jobs)
   \<and> add example_queue None (ObjectId ''c1'') 4000 (JObj [(''invalid'', JStr ''object'')]) clean_jobs
     = (Inl (Error ''Payload is no valid Mongoose document.''), clean_jobs)
   \<and> add example_queue None (ObjectId ''c1'') 4000 example_payload clean_jobs
     = (Inr ''c1'', clean_jobs @ [(example_job ''c1'' 4000)])"
  using add_outcomes [of example_queue None "ObjectId ''c1''" 4000 clean_jobs
                         "JObj [(''invalid'', JStr ''object'')]"]
        add_outcomes [of example_queue None "ObjectId ''c1''" 4000 clean_jobs example_payload]
  by (simp add: example_payload_def clean_jobs_def ids_def example_job_eq example_queue_eq)

text \<open>
  C2. When some job is claimable (\<open>done = false\<close>, \<open>blockedUntil\<close> before the clock
  reading \<open>now1\<close> of the filter, \<open>retries \<le> maxRetries\<close>), \<open>get\<close> picks a claimable
  job \<open>j\<close> that no claimable job precedes in \<open>createdAt\<close>, and the one store step
  replaces \<open>j\<close>, and no other document, by \<open>j\<close> with \<open>blockedUntil\<close> set to the clock
  reading \<open>now2\<close> of the update plus \<open>blockDuration\<close>, \<open>workerId\<close> and
  \<open>workerHostname\<close> set to the caller's, and \<open>retries\<close> one higher. The view returned
  has the job's id, the payload document that the reference resolves to, the new
  \<open>blockedUntil\<close> and \<open>done\<close> (false). The two clock readings coincide when both
  reads fall in the same millisecond.
\<close>

theorem get_claims_oldest:
  assumes "distinct (ids s)"
    and "\<exists>j\<in>set s. claimable (maxRetries (this_options this)) now1 j"
  shows "\<exists>j\<in>set s. claimable (maxRetries (this_options this)) now1 j
           \<and> (\<forall>j'\<in>set s. claimable (maxRetries (this_options this)) now1 j'
                 \<longrightarrow> createdAt j \<le> createdAt j')
           \<and> get this payloads None None now1 now2 s =
               (Inr (Some \<lparr>v_id = job_id j, v_payload = populate payloads (payload j),
                           v_blockedUntil = now2 + blockDuration (this_options this),
                           v_done = False\<rparr>),
                map (\<lambda>d. if d = j
                          then j\<lparr>blockedUntil := now2 + blockDuration (this_options this),
                                 workerId := Some (this_workerId this),
                                 workerHostname := Some (this_workerHostname this),
                                 retries := retries j + 1\<rparr>
                          else d) s)"
proof -
  let ?mr = "maxRetries (this_options this)"
  from findOneAndUpdate_sorted_match [OF assms(2), of createdAt "claim this now2"]
  obtain j where j: "j \<in> set s" "claimable ?mr now1 j"
      "\<forall>x\<in>set s. claimable ?mr now1 x \<longrightarrow> createdAt j \<le> createdAt x"
      "findOneAndUpdate None (claimable ?mr now1) (sort_key createdAt) (claim this now2) s =
         (Inr (Some (claim this now2 j)),
          update_first (\<lambda>d. job_id d = job_id j) (claim this now2) s)"
    by blast
  from j(2) have nd: "is_done j = False"
    by (simp add: claimable_def)
  have "get this payloads None None now1 now2 s =
               (Inr (Some \<lparr>v_id = job_id j, v_payload = populate payloads (payload j),
                           v_blockedUntil = now2 + blockDuration (this_options this),
                           v_done = False\<rparr>),
                map (\<lambda>d. if d = j then claim this now2 j else d) s)"
    using nd by (simp add: get_def j(4) update_job_distinct [OF assms(1) j(1)] claim_def)
  then show ?thesis
    using j(1,2,3) unfolding claim_def by blast
qed

theorem get_claims_oldest_witness:
  "get example_queue [example_payload] None None 3000 3005 ack_jobs =
     (Inr (Some \<lparr>v_id = ObjectId ''d2'', v_payload = example_payload,
                 v_blockedUntil = 33005, v_done = False\<rparr>),
      [(example_job ''d1'' 2000)\<lparr>is_done := True\<rparr>,
       (example_job ''d2'' 2001)\<lparr>blockedUntil := 33005, workerId := Some ''1234567890'',
                                 workerHostname := Some ''worker-host'', retries := 1\<rparr>,
       example_job ''d3'' 2002,
       example_job ''d4'' 2003])"
proof -
  have d: "distinct (ids ack_jobs)"
    by (simp add: ack_jobs_def ids_def example_job_eq)
  have h: "\<exists>j\<in>set ack_jobs. claimable (maxRetries (this_options example_queue)) 3000 j"
    by (simp add: ack_jobs_def example_job_eq example_queue_eq claimable_def)
  from get_claims_oldest [OF d h, of "[example_payload]" 3005] show ?thesis
    by (auto simp: ack_jobs_def example_job_eq example_queue_eq claimable_def
                   populate_def example_payload_def)
qed

text \<open>
  C3, as stated, fails: a job whose \<open>retries\<close> equals \<open>maxRetries\<close> (here 5 claims so
  far, \<open>maxRetries = 5\<close>) is claimed once more by \<open>get\<close>, which leaves it with
  \<open>retries = maxRetries + 1\<close>.
\<close>

theorem get_claims_at_maxRetries:
  "retries exhausted_job = maxRetries (this_options example_queue)
   \<and> get example_queue [] None None 3000 3000 [exhausted_job] =
       (Inr (Some \<lparr>v_id = ObjectId ''e1'', v_payload = JNull, v_blockedUntil = 33000, v_done = False\<rparr>),
        [exhausted_job\<lparr>blockedUntil := 33000, workerId := Some ''1234567890'',
                       workerHostname := Some ''worker-host'', retries := 6\<rparr>])"
  by (simp add: get_def findOneAndUpdate_def exhausted_job_def example_job_eq example_queue_eq
                claimable_def claim_def populate_def)

text \<open>
  C3, amended. The filter of \<open>get\<close> is \<open>retries \<le> maxRetries\<close>: a job is excluded from
  claiming once its \<open>retries\<close> exceeds \<open>maxRetries\<close>. Such a job is never returned by
  \<open>get\<close>, whatever its other fields, and \<open>get\<close> leaves it in the collection as it is. A
  job is therefore claimed at most \<open>maxRetries + 1\<close> times: \<open>get\<close> never raises
  \<open>retries\<close> above \<open>maxRetries + 1\<close>.
\<close>

theorem get_skips_exhausted:
  assumes "distinct (ids s)"
  shows "(\<forall>j\<in>set s. retries j > maxRetries (this_options this) \<longrightarrow>
            j \<in> set (snd (get this payloads fault pfault now1 now2 s))
            \<and> (\<forall>v. fst (get this payloads fault pfault now1 now2 s) = Inr (Some v)
                    \<longrightarrow> v_id v \<noteq> job_id j))
       \<and> ((\<forall>j\<in>set s. retries j \<le> maxRetries (this_options this) + 1) \<longrightarrow>
            (\<forall>j\<in>set (snd (get this payloads fault pfault now1 now2 s)).
                retries j \<le> maxRetries (this_options this) + 1))"
  using assms
proof (cases rule: get_cases [where fault = fault and this = this and payloads = payloads
                              and pfault = pfault and ?now1.0 = now1 and ?now2.0 = now2])
  case (failed e)
  then show ?thesis by simp
next
  case empty
  then show ?thesis by simp
next
  case (claimed c)
  let ?mr = "maxRetries (this_options this)"
  let ?s' = "map (\<lambda>d. if d = c then claim this now2 c else d) s"
  from claimed(3) have rc: "retries c \<le> ?mr"
    by (simp add: claimable_def)
  have skip: "j \<in> set ?s' \<and> job_id c \<noteq> job_id j" if "j \<in> set s" "retries j > ?mr" for j
  proof -
    from that rc have "c \<noteq> j" by auto
    with same_id_same_job [OF assms that(1) claimed(2)] have "job_id c \<noteq> job_id j"
      by simp
    moreover from that(1) \<open>c \<noteq> j\<close> have "j \<in> set ?s'"
      by (auto simp: image_iff)
    ultimately show ?thesis by simp
  qed
  have bound: "\<forall>j\<in>set ?s'. retries j \<le> ?mr + 1" if "\<forall>j\<in>set s. retries j \<le> ?mr + 1"
    using that rc by (auto simp: claim_def)
  have snd_eq: "snd (get this payloads fault pfault now1 now2 s) = ?s'"
    by (simp add: claimed(4))
  have fst_id: "v_id v = job_id c"
    if "fst (get this payloads fault pfault now1 now2 s) = Inr (Some v)" for v
    using that by (auto simp: claimed(4) split: option.splits)
  show ?thesis
  proof (intro conjI)
    show "\<forall>j\<in>set s. retries j > ?mr \<longrightarrow>
            j \<in> set (snd (get this payloads fault pfault now1 now2 s))
            \<and> (\<forall>v. fst (get this payloads fault pfault now1 now2 s) = Inr (Some v)
                    \<longrightarrow> v_id v \<noteq> job_id j)"
    proof (intro ballI impI conjI allI)
      fix j assume j: "j \<in> set s" "?mr < retries j"
      from skip [OF j] show "j \<in> set (snd (get this payloads fault pfault now1 now2 s))"
        by (simp add: snd_eq)
    next
      fix j v assume j: "j \<in> set s" "?mr < retries j"
        and v: "fst (get this payloads fault pfault now1 now2 s) = Inr (Some v)"
      from skip [OF j] fst_id [OF v] show "v_id v \<noteq> job_id j"
        by simp
    qed
  next
    show "(\<forall>j\<in>set s. retries j \<le> ?mr + 1) \<longrightarrow>
            (\<forall>j\<in>set (snd (get this payloads fault pfault now1 now2 s)). retries j \<le> ?mr + 1)"
      using bound by (simp add: snd_eq)
  qed
qed

theorem get_skips_exhausted_witness:
  "(example_job ''b4'' 2003)\<lparr>retries := 6\<rparr> \<in> set (snd (get example_queue [] None None 3000 3000 clean_jobs))
   \<and> fst (get example_queue [] None None 3000 3000 clean_jobs) =
       Inr (Some \<lparr>v_id = ObjectId ''b1'', v_payload = JNull, v_blockedUntil = 33000, v_done = False\<rparr>)
   \<and> list_all (\<lambda>j. retries j \<le> 6) (snd (get example_queue [] None None 3000 3000 clean_jobs))"
proof -
  have d: "distinct (ids clean_jobs)"
    by (simp add: clean_jobs_def ids_def example_job_eq)
  have m: "(example_job ''b4'' 2003)\<lparr>retries := 6\<rparr> \<in> set clean_jobs"
    by (simp add: clean_jobs_def)
  have r: "retries ((example_job ''b4'' 2003)\<lparr>retries := 6\<rparr>) > maxRetries (this_options example_queue)"
    by (simp add: example_queue_eq)
  have b: "\<forall>j\<in>set clean_jobs. retries j \<le> maxRetries (this_options example_queue) + 1"
    by (simp add: clean_jobs_def example_job_eq example_queue_eq)
  have mr: "maxRetries (this_options example_queue) + 1 = 6"
    by (simp add: example_queue_eq)
  have e: "fst (get example_queue [] None None 3000 3000 clean_jobs) =
       Inr (Some \<lparr>v_id = ObjectId ''b1'', v_payload = JNull, v_blockedUntil = 33000, v_done = False\<rparr>)"
    by (simp add: get_def findOneAndUpdate_def clean_jobs_def example_job_eq example_queue_eq
                  claimable_def claim_def populate_def)
  note t = get_skips_exhausted [OF d, of example_queue "[]" None None 3000 3000, unfolded mr]
  from t [THEN conjunct1, rule_format, OF m r] have "(example_job ''b4'' 2003)\<lparr>retries := 6\<rparr>
      \<in> set (snd (get example_queue [] None None 3000 3000 clean_jobs))"
    by simp
  moreover from t [THEN conjunct2, rule_format] b
  have "list_all (\<lambda>j. retries j \<le> 6) (snd (get example_queue [] None None 3000 3000 clean_jobs))"
    unfolding mr list_all_iff by blast
  ultimately show ?thesis
    using e by simp
qed

text \<open>
  C10. The schema factory builds the schema on its first call and keeps it in the module
  variable: the first call's model has the payload reference type given to it, and every
  later call (with any clock reading, collection name and type, also the call the
  constructor of another \<open>MongooseQueue\<close> makes) returns a model on that same schema and
  leaves the module variable as it is, so its \<open>payloadRefType\<close> argument has no effect.
\<close>

theorem JobSchema_uses_first_payloadRefType:
  "payload_type (modelSchema (fst (JobSchema now1 name1 type1 None))) = type1
   \<and> JobSchema now2 name2 type2 (snd (JobSchema now1 name1 type1 None)) =
       (\<lparr>modelName = name2, modelSchema = modelSchema (fst (JobSchema now1 name1 type1 None))\<rparr>,
        snd (JobSchema now1 name1 type1 None))
   \<and> map (\<lambda>m. payload_type (modelSchema m))
         (fst (JobSchema_calls ((now1, name1, type1) # cs) None)) =
       replicate (Suc (length cs)) type1
   \<and> payload_type (modelSchema (JobModel (fst (MongooseQueue pm w opts host now2
         (snd (JobSchema now1 name1 type1 None)))))) = type1"
proof -
  have first: "JobSchema now1 name1 type1 None =
      (\<lparr>modelName = name1,
        modelSchema = \<lparr>blockedUntil_default = now1, retries_default = 0,
                       done_default = False, payload_type = type1\<rparr>\<rparr>,
       Some \<lparr>blockedUntil_default = now1, retries_default = 0,
             done_default = False, payload_type = type1\<rparr>)"
    by (simp add: JobSchema_def Let_def)
  have "map (\<lambda>m. payload_type (modelSchema m))
          (map (\<lambda>(now, collectionName, payloadRefType').
              \<lparr>modelName = collectionName, modelSchema = sch\<rparr>) cs) =
        replicate (length cs) (payload_type sch)" for sch
    by (induction cs) auto
  then show ?thesis
    by (simp add: first JobSchema_cached JobSchema_calls_cached MongooseQueue_def Let_def)
qed

text \<open>
  A second queue constructed with \<open>payloadRefType = String\<close> records that option, yet its
  job model keeps the \<open>ObjectId\<close> reference type of the first call.
\<close>

theorem second_queue_keeps_first_type:
  "payloadRefType (this_options (fst (MongooseQueue ''payload'' None (Some string_options) ''h'' 2000
      (snd (JobSchema 1000 ''queue'' ObjectIdType None))))) = StringType
   \<and> payload_type (modelSchema (JobModel (fst (MongooseQueue ''payload'' None (Some string_options) ''h'' 2000
      (snd (JobSchema 1000 ''queue'' ObjectIdType None)))))) = ObjectIdType"
  using JobSchema_uses_first_payloadRefType
          [of 1000 "''queue''" ObjectIdType 2000 "''other''" StringType "[]" "''payload''" None
              "Some string_options" "''h''"]
  by (simp add: MongooseQueue_def string_options_def defaults_def JobSchema_def Let_def)

text \<open>
  C1, as stated, fails: the atomic step alone does not keep two racing calls from returning
  the same job. With \<open>blockDuration = 0\<close>, two calls whose clock readings are one
  millisecond apart both claim the only job; with the default \<open>blockDuration\<close> of 30000,
  so do two calls whose workers' clocks are 37 seconds apart. In both runs one job is
  claimable, two calls race, both return that job's id and none returns empty.
\<close>

theorem racing_gets_claim_twice:
  "gets [(unblocked_queue, None, None, 3000, 3000), (unblocked_queue, None, None, 3001, 3001)] []
        [example_job ''g1'' 2000] =
     ([Inr (Some \<lparr>v_id = ObjectId ''g1'', v_payload = JNull, v_blockedUntil = 3000, v_done = False\<rparr>),
       Inr (Some \<lparr>v_id = ObjectId ''g1'', v_payload = JNull, v_blockedUntil = 3001, v_done = False\<rparr>)],
      [(example_job ''g1'' 2000)\<lparr>blockedUntil := 3001, workerId := Some ''w1'',
                                 workerHostname := Some ''host-1'', retries := 2\<rparr>])
   \<and> gets [(example_queue, None, None, 3000, 3000), (second_worker, None, None, 40000, 40000)] []
        [example_job ''g1'' 2000] =
     ([Inr (Some \<lparr>v_id = ObjectId ''g1'', v_payload = JNull, v_blockedUntil = 33000, v_done = False\<rparr>),
       Inr (Some \<lparr>v_id = ObjectId ''g1'', v_payload = JNull, v_blockedUntil = 70000, v_done = False\<rparr>)],
      [(example_job ''g1'' 2000)\<lparr>blockedUntil := 70000, workerId := Some ''w2'',
                                 workerHostname := Some ''host-2'', retries := 2\<rparr>])"
  by (simp add: get_def findOneAndUpdate_def example_job_eq example_queue_eq unblocked_queue_eq
                second_worker_eq claimable_def claim_def populate_def)

text \<open>
  C6, as stated, fails: the id \<^verbatim>\<open>'123123123'\<close> of the README's example matches no
  stored job, yet \<open>ack\<close> and \<open>error\<close> fail with mongoose's CastError for it, not with
  "Job id invalid, job not found.".
\<close>

theorem ack_error_malformed_id:
  "''123123123'' \<notin> set (map (\<lambda>j. toString (job_id j)) clean_jobs)
   \<and> ack_cast example_queue None (IdString ''123123123'') clean_jobs
       = (Inl (CastError ''123123123''), clean_jobs)
   \<and> error_cast example_queue None (IdString ''123123123'') ''failed'' clean_jobs
       = (Inl (CastError ''123123123''), clean_jobs)
   \<and> CastError ''123123123'' \<noteq> Error ''Job id invalid, job not found.''"
  by (simp add: ack_cast_def error_cast_def castObjectId_def CastError_def clean_jobs_def
                example_job_eq)

text \<open>
  C6, amended. For a job id that mongoose casts to an ObjectId (an ObjectId, or a string
  of 24 hexadecimal digits or of 12 characters) and that no stored job has, \<open>ack\<close> and
  \<open>error\<close> both fail with exactly the message "Job id invalid, job not found." and the
  collection is left as it was. For a job id that cannot be cast (every string whose length
  is neither 12 nor 24 is one) both fail with the CastError instead, whatever the store
  would have answered, and the collection is left as it was.
\<close>

theorem ack_error_unknown_id:
  "(castObjectId jobId = Inr i \<and> i \<notin> set (ids s) \<longrightarrow>
      ack_cast this None jobId s = (Inl (Error ''Job id invalid, job not found.''), s)
      \<and> error_cast this None jobId msg s = (Inl (Error ''Job id invalid, job not found.''), s))
   \<and> (castObjectId jobId = Inl e \<longrightarrow>
      ack_cast this fault jobId s = (Inl e, s)
      \<and> error_cast this fault jobId msg s = (Inl e, s))
   \<and> castObjectId (IdObject i) = Inr i
   \<and> (length h \<noteq> 12 \<and> length h \<noteq> 24 \<longrightarrow> castObjectId (IdString h) = Inl (CastError h))"
  using ack_error_not_found [of i s this msg]
  by (simp add: ack_cast_def error_cast_def castObjectId_def)

theorem ack_error_unknown_id_witness:
  "ack_cast example_queue None (IdString ''57a9a8c526f9c3c114f00000'') clean_jobs
       = (Inl (Error ''Job id invalid, job not found.''), clean_jobs)
   \<and> error_cast example_queue None (IdString ''57a9a8c526f9c3c114f00000'') ''failed'' clean_jobs
       = (Inl (Error ''Job id invalid, job not found.''), clean_jobs)
   \<and> ack_cast example_queue None (IdObject (ObjectId ''b9'')) clean_jobs
       = (Inl (Error ''Job id invalid, job not found.''), clean_jobs)
   \<and> ack_cast example_queue None (IdString ''12312313213123'') clean_jobs
       = (Inl (CastError ''12312313213123''), clean_jobs)
   \<and> error_cast example_queue None (IdString ''12312313213123'') ''This one failed horribly'' clean_jobs
       = (Inl (CastError ''12312313213123''), clean_jobs)"
proof -
  have c: "castObjectId (IdString ''57a9a8c526f9c3c114f00000'') = Inr (ObjectId ''57a9a8c526f9c3c114f00000'')"
    by (simp add: castObjectId_def is_hex_digit_def lower_hex_def)
  have h: "ObjectId ''57a9a8c526f9c3c114f00000'' \<notin> set (ids clean_jobs)"
    by (simp add: clean_jobs_def ids_def example_job_eq)
  have h9: "ObjectId ''b9'' \<notin> set (ids clean_jobs)"
    by (simp add: clean_jobs_def ids_def example_job_eq)
  have m: "castObjectId (IdString ''12312313213123'') = Inl (CastError ''12312313213123'')"
    by (simp add: castObjectId_def)
  from ack_error_unknown_id [of "IdString ''57a9a8c526f9c3c114f00000''"
         "ObjectId ''57a9a8c526f9c3c114f00000''" clean_jobs example_queue "''failed''"] c h
  have 1: "ack_cast example_queue None (IdString ''57a9a8c526f9c3c114f00000'') clean_jobs
       = (Inl (Error ''Job id invalid, job not found.''), clean_jobs)
   \<and> error_cast example_queue None (IdString ''57a9a8c526f9c3c114f00000'') ''failed'' clean_jobs
       = (Inl (Error ''Job id invalid, job not found.''), clean_jobs)"
    by blast
  from ack_error_unknown_id [of "IdObject (ObjectId ''b9'')" "ObjectId ''b9''" clean_jobs
         example_queue "''failed''"] h9
  have 2: "ack_cast example_queue None (IdObject (ObjectId ''b9'')) clean_jobs
       = (Inl (Error ''Job id invalid, job not found.''), clean_jobs)"
    by blast
  from ack_error_unknown_id [of "IdString ''12312313213123''" _ clean_jobs example_queue
         "''This one failed horribly''" "CastError ''12312313213123''" None] m
  have 3: "ack_cast example_queue None (IdString ''12312313213123'') clean_jobs
       = (Inl (CastError ''12312313213123''), clean_jobs)
   \<and> error_cast example_queue None (IdString ''12312313213123'') ''This one failed horribly'' clean_jobs
       = (Inl (CastError ''12312313213123''), clean_jobs)"
    by blast
  from 1 2 3 show ?thesis by simp
qed

text \<open>
  C4. The schema's default for \<open>blockedUntil\<close> is the value \<^verbatim>\<open>Date.now()\<close> had when the
  schema was built, not a function evaluated for each new document: a job added at clock
  reading 5000, for a saved payload document, by a queue whose schema was built at 1000 is
  stored with \<open>blockedUntil = 1000\<close>, while its \<open>createdAt\<close> is 5000.
\<close>

theorem add_blockedUntil_is_schema_build_time:
  "add (fst (MongooseQueue ''payload'' (Some ''1234567890'') None ''worker-host'' 1000 None))
       None (ObjectId ''57a9a8c526f9c3c114f0bb01'') 5000 saved_payload [] =
     (Inr ''57a9a8c526f9c3c114f0bb01'',
      [\<lparr>job_id = ObjectId ''57a9a8c526f9c3c114f0bb01'', payload = JStr ''57a9a8c526f9c3c114f0aa01'',
        createdAt = 5000, blockedUntil = 1000,
        workerHostname = None, workerId = None, retries = 0, is_done = False, error_msg = None\<rparr>])"
  by (simp add: add_def save_def new_job_def MongooseQueue_def defaults_def JobSchema_def
                saved_payload_def ids_def Let_def)

text \<open>
  C1, amended. Let there be an instant \<open>hi\<close> that no call's filter clock value exceeds and
  until which, or longer, every call blocks the job it claims (its update clock value plus
  its \<open>blockDuration\<close> is at least \<open>hi\<close>). Then, in whatever order the store executes the
  calls and whatever their \<open>maxRetries\<close> and failures, no two calls return the same job id.
  If moreover the calls share \<open>maxRetries\<close>, no filter clock value is before \<open>lo\<close> and no
  stored job's \<open>blockedUntil\<close> lies from \<open>lo\<close> up to, not including, \<open>hi\<close>, then every
  returned id is that of a job claimable at \<open>lo\<close>, and, when no store query fails, with \<open>N\<close>
  calls and \<open>M\<close> jobs claimable at \<open>lo\<close> exactly \<open>min N M\<close> calls return a job and the other
  \<open>N - min N M\<close> return empty: for \<open>N > M\<close>, \<open>M\<close> distinct jobs and \<open>N - M\<close> empty results.
\<close>

theorem racing_gets_claim_distinct_jobs:
  assumes "distinct (ids s)"
    and "\<forall>(this, fault, pfault, now1, now2)\<in>set cs.
           now1 \<le> hi \<and> hi \<le> now2 + blockDuration (this_options this)"
  shows "distinct (returned_ids (fst (gets cs payloads s)))
       \<and> ((\<forall>(this, fault, pfault, now1, now2)\<in>set cs.
               maxRetries (this_options this) = mr \<and> lo \<le> now1)
            \<and> (\<forall>j\<in>set s. blockedUntil j < lo \<or> hi \<le> blockedUntil j) \<longrightarrow>
            set (returned_ids (fst (gets cs payloads s))) \<subseteq> set (claimable_ids mr lo s)
            \<and> ((\<forall>(this, fault, pfault, now1, now2)\<in>set cs. fault = None \<and> pfault = None) \<longrightarrow>
                 length (returned_ids (fst (gets cs payloads s)))
                   = min (length cs) (length (claimable_ids mr lo s))
                 \<and> length (filter (\<lambda>r. r = Inr None) (fst (gets cs payloads s)))
                   = length cs - min (length cs) (length (claimable_ids mr lo s))))"
proof (intro conjI impI)
  show "distinct (returned_ids (fst (gets cs payloads s)))"
    using gets_distinct [OF assms] by simp
next
  assume a: "(\<forall>(this, fault, pfault, now1, now2)\<in>set cs.
               maxRetries (this_options this) = mr \<and> lo \<le> now1)
            \<and> (\<forall>j\<in>set s. blockedUntil j < lo \<or> hi \<le> blockedUntil j)"
  have w: "\<forall>(this, fault, pfault, now1, now2)\<in>set cs.
             maxRetries (this_options this) = mr \<and> lo \<le> now1 \<and> now1 \<le> hi
             \<and> hi \<le> now2 + blockDuration (this_options this)"
    using a assms(2) by (simp add: split_beta)
  from a have st: "\<forall>j\<in>set s. blockedUntil j < lo \<or> hi \<le> blockedUntil j"
    by simp
  note t = gets_in_window [OF w assms(1) st, of payloads]
  from t show "set (returned_ids (fst (gets cs payloads s))) \<subseteq> set (claimable_ids mr lo s)"
    by simp
  assume ff: "\<forall>(this, fault, pfault, now1, now2)\<in>set cs. fault = None \<and> pfault = None"
  with t show "length (returned_ids (fst (gets cs payloads s)))
                   = min (length cs) (length (claimable_ids mr lo s))"
    by simp
  from t ff show "length (filter (\<lambda>r. r = Inr None) (fst (gets cs payloads s)))
                   = length cs - min (length cs) (length (claimable_ids mr lo s))"
    by simp
qed

theorem racing_gets_witness:
  "fst (gets racing_calls [] ack_jobs) =
     [Inr (Some \<lparr>v_id = ObjectId ''d2'', v_payload = JNull, v_blockedUntil = 33000, v_done = False\<rparr>),
      Inr (Some \<lparr>v_id = ObjectId ''d3'', v_payload = JNull, v_blockedUntil = 33002, v_done = False\<rparr>),
      Inr (Some \<lparr>v_id = ObjectId ''d4'', v_payload = JNull, v_blockedUntil = 33002, v_done = False\<rparr>),
      Inr None]
   \<and> distinct (returned_ids (fst (gets racing_calls [] ack_jobs)))
   \<and> length (returned_ids (fst (gets racing_calls [] ack_jobs))) = 3
   \<and> length (filter (\<lambda>r. r = Inr None) (fst (gets racing_calls [] ack_jobs))) = 1"
proof -
  have d: "distinct (ids ack_jobs)"
    by (simp add: ack_jobs_def ids_def example_job_eq)
  have w: "\<forall>(this, fault, pfault, now1, now2)\<in>set racing_calls.
             now1 \<le> 3003 \<and> 3003 \<le> now2 + blockDuration (this_options this)"
    by (simp add: racing_calls_def example_queue_eq second_worker_eq)
  have w2: "\<forall>(this, fault, pfault, now1, now2)\<in>set racing_calls.
             maxRetries (this_options this) = 5 \<and> 3000 \<le> now1"
    by (simp add: racing_calls_def example_queue_eq second_worker_eq)
  have st: "\<forall>j\<in>set ack_jobs. blockedUntil j < 3000 \<or> 3003 \<le> blockedUntil j"
    by (simp add: ack_jobs_def example_job_eq)
  have ff: "\<forall>(this, fault, pfault, now1, now2)\<in>set racing_calls. fault = None \<and> pfault = None"
    by (simp add: racing_calls_def)
  have m: "claimable_ids 5 3000 ack_jobs = [ObjectId ''d2'', ObjectId ''d3'', ObjectId ''d4'']"
    by (simp add: claimable_ids_def ack_jobs_def example_job_eq claimable_def)
  have n: "length racing_calls = 4"
    by (simp add: racing_calls_def)
  have ev: "fst (gets racing_calls [] ack_jobs) =
     [Inr (Some \<lparr>v_id = ObjectId ''d2'', v_payload = JNull, v_blockedUntil = 33000, v_done = False\<rparr>),
      Inr (Some \<lparr>v_id = ObjectId ''d3'', v_payload = JNull, v_blockedUntil = 33002, v_done = False\<rparr>),
      Inr (Some \<lparr>v_id = ObjectId ''d4'', v_payload = JNull, v_blockedUntil = 33002, v_done = False\<rparr>),
      Inr None]"
    by (simp add: racing_calls_def get_def findOneAndUpdate_def ack_jobs_def example_job_eq
                  example_queue_eq second_worker_eq claimable_def claim_def populate_def)
  note t = racing_gets_claim_distinct_jobs [OF d w, of "[]" 5 3000]
  from t have t1: "distinct (returned_ids (fst (gets racing_calls [] ack_jobs)))"
    by (rule conjunct1)
  from t [THEN conjunct2, THEN mp, OF conjI [OF w2 st], THEN conjunct2, THEN mp, OF ff]
  have "length (returned_ids (fst (gets racing_calls [] ack_jobs))) = min 4 3
      \<and> length (filter (\<lambda>r. r = Inr None) (fst (gets racing_calls [] ack_jobs))) = 4 - min 4 3"
    unfolding m n by simp
  with ev t1 show ?thesis by simp
qed

end
